theory Spec2Isabelle
  imports Complex_Main "HOL-Library.Word"
begin

unbundle bit_operations_syntax

section \<open>The table of \<^verbatim>\<open>notebooks/article_1.py\<close>\<close>

text \<open>
  The notebook keeps one pandas DataFrame, \<^verbatim>\<open>dataframe\<close>, and rewrites it stage by
  stage. A cell is dynamically typed. \<open>Num\<close> is a number of a float64 column or a
  Python number of an object column, embedded in the reals, so \<^verbatim>\<open>1 == 1.0\<close> holds as
  in Python and the statistics are exact; rounding of float64 is not part of this model.
  The integers that the notebook itself writes (flags, codes, numbers of days) are \<open>Num\<close>
  too: they are small and no operation on them depends on their dtype. \<open>Int64\<close> is a cell of
  an int64 column, as \<^verbatim>\<open>read_csv\<close> makes one of a column of whole numbers: a 64-bit
  two's-complement integer, on which numpy's integer arithmetic wraps around; such a
  column holds no other kind of cell. \<open>Missing\<close> is pandas' missing marker (NaN in a
  float64 or object column, NaT in a datetime column). A timestamp is its number of
  nanoseconds since the epoch.
\<close>

datatype cell = Missing | Num real | Int64 "64 word" | Str string | Date int

type_synonym series = "cell list"

text \<open>Columns in their order, each with its label.\<close>

type_synonym dataframe = "(string \<times> series) list"

text \<open>
  \<open>KeyError\<close> carries the labels that the message of the exception names;
  \<open>TypeError\<close> stands for the exception of a numeric operation on a column
  that holds strings (timestamps in such a column are outside the model and are reported
  the same way).
\<close>

datatype error = KeyError "string list" | TypeError

definition columns :: "dataframe \<Rightarrow> string list" where
  "columns df = map fst df"

definition nrows :: "dataframe \<Rightarrow> nat" where
  "nrows df = (case df of [] \<Rightarrow> 0 | (_, xs) # _ \<Rightarrow> length xs)"

text \<open>A DataFrame has distinct labels here and all its columns have one length.\<close>

definition wf :: "dataframe \<Rightarrow> bool" where
  "wf df = (distinct (columns df) \<and> list_all (\<lambda>(_, xs). length xs = nrows df) df)"

text \<open>\<^verbatim>\<open>dataframe[col]\<close>: raises KeyError when the label is absent.\<close>

definition getitem :: "dataframe \<Rightarrow> string \<Rightarrow> error + series" where
  "getitem df col = (case map_of df col of None \<Rightarrow> Inl (KeyError [col]) | Some xs \<Rightarrow> Inr xs)"

text \<open>\<^verbatim>\<open>dataframe[col] = xs\<close>: overwrites the column in place, or appends a new last column.\<close>

fun setitem :: "dataframe \<Rightarrow> string \<Rightarrow> series \<Rightarrow> dataframe" where
  "setitem [] col xs = [(col, xs)]"
| "setitem ((n, ys) # df) col xs =
     (if n = col then (col, xs) # df else (n, ys) # setitem df col xs)"

text \<open>
  \<^verbatim>\<open>dataframe.drop(labels, axis=1)\<close>: raises KeyError naming the labels that are not
  columns, otherwise removes the named columns.
\<close>

definition drop_columns :: "dataframe \<Rightarrow> string list \<Rightarrow> error + dataframe" where
  "drop_columns df labels =
     (let absent = filter (\<lambda>l. l \<notin> set (columns df)) labels
      in if absent \<noteq> [] then Inl (KeyError absent)
         else Inr (filter (\<lambda>(n, _). n \<notin> set labels) df))"

subsection \<open>Numeric columns\<close>

definition is_numeric :: "cell \<Rightarrow> bool" where
  "is_numeric c = (case c of Missing \<Rightarrow> True | Num _ \<Rightarrow> True | Int64 _ \<Rightarrow> True | _ \<Rightarrow> False)"

definition numeric :: "series \<Rightarrow> bool" where
  "numeric xs = list_all is_numeric xs"

text \<open>
  The values that pandas' reductions see: with \<^verbatim>\<open>skipna=True\<close> missing cells are left
  out, and the cells of an int64 column are summed as floats.
\<close>

fun notna_values :: "series \<Rightarrow> real list" where
  "notna_values [] = []"
| "notna_values (Num v # xs) = v # notna_values xs"
| "notna_values (Int64 k # xs) = real_of_int (sint k) # notna_values xs"
| "notna_values (_ # xs) = notna_values xs"

subsection \<open>Sign normalizer (lines 296-302)\<close>

text \<open>
  \<^verbatim>\<open>np.abs(series)\<close>: elementwise, NaN stays NaN, a string raises. On an int64 column
  the negation is that of the machine, modulo \<open>2\<^sup>6\<^sup>4\<close>: the least integer,
  \<open>- 2\<^sup>6\<^sup>3\<close>, is its own negation.
\<close>

definition abs_cell :: "cell \<Rightarrow> cell" where
  "abs_cell c =
     (case c of
        Num v \<Rightarrow> Num \<bar>v\<bar>
      | Int64 k \<Rightarrow> Int64 (if k <s 0 then - k else k)
      | _ \<Rightarrow> c)"

definition np_abs :: "series \<Rightarrow> error + series" where
  "np_abs xs = (if numeric xs then Inr (map abs_cell xs) else Inl TypeError)"

text \<open>
  \<^verbatim>\<open>
  def apply_absolute_values(dataframe, columns):
      for col in columns:
          if col in dataframe.columns:
              dataframe[col] = np.abs(dataframe[col])
  \<close>
\<close>

fun apply_absolute_values :: "dataframe \<Rightarrow> string list \<Rightarrow> error + dataframe" where
  "apply_absolute_values df [] = Inr df"
| "apply_absolute_values df (col # cols) =
     (if col \<in> set (columns df) then
        (case getitem df col of
           Inl e \<Rightarrow> Inl e
         | Inr xs \<Rightarrow>
             (case np_abs xs of
                Inl e \<Rightarrow> Inl e
              | Inr ys \<Rightarrow> apply_absolute_values (setitem df col ys) cols))
      else apply_absolute_values df cols)"



subsection \<open>Missing-value imputer (lines 186-191)\<close>

text \<open>
  \<^verbatim>\<open>Series.mean()\<close>: the arithmetic mean of the cells that are not missing, NaN when
  there is none.
\<close>

definition mean :: "series \<Rightarrow> error + cell" where
  "mean xs =
     (if numeric xs then
        (let vs = notna_values xs
         in if vs = [] then Inr Missing else Inr (Num (sum_list vs / real (length vs))))
      else Inl TypeError)"

text \<open>\<^verbatim>\<open>Series.fillna(value)\<close>; filling with NaN changes nothing.\<close>

definition fillna :: "series \<Rightarrow> cell \<Rightarrow> series" where
  "fillna xs v = map (\<lambda>c. if c = Missing then v else c) xs"

text \<open>\<^verbatim>\<open>dataframe[col] = dataframe[col].fillna(dataframe[col].mean())\<close>\<close>

definition impute_mean :: "dataframe \<Rightarrow> string \<Rightarrow> error + dataframe" where
  "impute_mean df col =
     (case getitem df col of
        Inl e \<Rightarrow> Inl e
      | Inr xs \<Rightarrow>
          (case mean xs of
             Inl e \<Rightarrow> Inl e
           | Inr m \<Rightarrow> Inr (setitem df col (fillna xs m))))"

definition imputer :: "dataframe \<Rightarrow> error + dataframe" where
  "imputer df =
     (case impute_mean df ''age_first_milestone_year'' of
        Inl e \<Rightarrow> Inl e
      | Inr df1 \<Rightarrow> impute_mean df1 ''age_last_milestone_year'')"

subsection \<open>Outlier flagger (lines 304-315)\<close>

text \<open>
  \<^verbatim>\<open>Series.std()\<close>: the sample standard deviation (\<^verbatim>\<open>ddof=1\<close>) of the cells that are
  not missing, NaN when there are fewer than two.
\<close>

definition std :: "series \<Rightarrow> error + cell" where
  "std xs =
     (if numeric xs then
        (let vs = notna_values xs; n = length vs
         in if n < 2 then Inr Missing
            else (let m = sum_list vs / real n
                  in Inr (Num (sqrt (sum_list (map (\<lambda>v. (v - m)\<^sup>2) vs) / real (n - 1))))))
      else Inl TypeError)"

text \<open>
  One entry of \<^verbatim>\<open>np.abs(column - mean) > threshold * std\<close>: a comparison with NaN on
  either side is False. The mean is a float, so the difference is one too, also on an
  int64 column.
\<close>

definition exceeds :: "real \<Rightarrow> cell \<Rightarrow> cell \<Rightarrow> cell \<Rightarrow> bool" where
  "exceeds threshold m s c =
     (case (c, m, s) of
        (Num v, Num mu, Num sd) \<Rightarrow> \<bar>v - mu\<bar> > threshold * sd
      | (Int64 k, Num mu, Num sd) \<Rightarrow> \<bar>real_of_int (sint k) - mu\<bar> > threshold * sd
      | _ \<Rightarrow> False)"

definition column_outliers :: "series \<Rightarrow> real \<Rightarrow> error + bool list" where
  "column_outliers column threshold =
     (case mean column of
        Inl e \<Rightarrow> Inl e
      | Inr m \<Rightarrow>
          (case std column of
             Inl e \<Rightarrow> Inl e
           | Inr s \<Rightarrow> Inr (map (exceeds threshold m s) column)))"

definition astype_int :: "bool \<Rightarrow> int" where
  "astype_int b = (if b then 1 else 0)"

text \<open>
  One entry of \<^verbatim>\<open>dataframe['is_outlier'] |= flags\<close>, the bitwise or of two integers.
  Line 305 has set the column to the integer 0, so its cells are numbers; other cells do
  not reach this operation and are left as they are.
\<close>

definition ior_cell :: "cell \<Rightarrow> int \<Rightarrow> cell" where
  "ior_cell c b = (case c of Num x \<Rightarrow> Num (of_int (\<lfloor>x\<rfloor> OR b)) | _ \<Rightarrow> c)"

text \<open>
  \<^verbatim>\<open>
  for column_name in columns:
      if column_name in dataframe:
          column = dataframe[column_name]
          mean = column.mean()
          std = column.std()
          is_outlier = (np.abs(column - mean) > threshold * std)
          dataframe['is_outlier'] |= is_outlier.astype(int)
  \<close>
\<close>

fun outlier_loop :: "dataframe \<Rightarrow> string list \<Rightarrow> real \<Rightarrow> error + dataframe" where
  "outlier_loop df [] threshold = Inr df"
| "outlier_loop df (column_name # cols) threshold =
     (if column_name \<in> set (columns df) then
        (case getitem df column_name of
           Inl e \<Rightarrow> Inl e
         | Inr column \<Rightarrow>
             (case column_outliers column threshold of
                Inl e \<Rightarrow> Inl e
              | Inr is_outlier \<Rightarrow>
                  (case getitem df ''is_outlier'' of
                     Inl e \<Rightarrow> Inl e
                   | Inr flags \<Rightarrow>
                       outlier_loop
                         (setitem df ''is_outlier'' (map2 ior_cell flags (map astype_int is_outlier)))
                         cols threshold)))
      else outlier_loop df cols threshold)"

text \<open>Line 305 sets \<^verbatim>\<open>dataframe['is_outlier'] = 0\<close> on every row, then the loop runs.\<close>

definition identify_outliers :: "dataframe \<Rightarrow> string list \<Rightarrow> real \<Rightarrow> error + dataframe" where
  "identify_outliers df cols threshold =
     outlier_loop (setitem df ''is_outlier'' (replicate (nrows df) (Num 0))) cols threshold"

text \<open>The call of line 353 leaves \<^verbatim>\<open>threshold\<close> at its default, 4.\<close>

definition identify_outliers_default :: "dataframe \<Rightarrow> string list \<Rightarrow> error + dataframe" where
  "identify_outliers_default df cols = identify_outliers df cols 4"

text \<open>The rows that the flagger marks.\<close>

definition flagged :: "dataframe \<Rightarrow> nat \<Rightarrow> bool" where
  "flagged df i = (case getitem df ''is_outlier'' of Inr flags \<Rightarrow> i < length flags \<and> flags ! i = Num 1 | Inl _ \<Rightarrow> False)"

subsection \<open>Histograms of the log-transformed columns (lines 421-440)\<close>

text \<open>
  The values of \<^verbatim>\<open>np.log\<close>: a float, minus infinity at 0, NaN below 0 and at NaN.
\<close>

datatype fval = Fin real | NegInf | NaN



datatype plotted = Raw series | Logged "fval list"

text \<open>
  What the cell of the notebook can write: the table, the local \<^verbatim>\<open>log_variable\<close>
  (unbound before the first iteration) and the subplots drawn so far, each with its title.
\<close>

record notebook =
  dataframe :: dataframe
  log_variable :: "fval list option"
  figure :: "(string \<times> plotted) list"




subsection \<open>Categorical encoder (lines 495-510)\<close>

text \<open>\<^verbatim>\<open>Series.unique()\<close>: the distinct cells in the order of their first appearance.\<close>

definition unique :: "series \<Rightarrow> series" where
  "unique xs = fold (\<lambda>x seen. if x \<in> set seen then seen else seen @ [x]) xs []"

text \<open>\<^verbatim>\<open>{value: i for i, value in enumerate(unique_values)}\<close>\<close>

definition dict_of :: "(nat \<times> cell) list \<Rightarrow> (cell \<rightharpoonup> nat)" where
  "dict_of ps = fold (\<lambda>(i, v) m. m(v \<mapsto> i)) ps Map.empty"

definition create_mapping :: "dataframe \<Rightarrow> string \<Rightarrow> error + (cell \<rightharpoonup> nat)" where
  "create_mapping df column =
     (case getitem df column of
        Inl e \<Rightarrow> Inl e
      | Inr xs \<Rightarrow> Inr (dict_of (enumerate 0 (unique xs))))"

text \<open>\<^verbatim>\<open>Series.map(mapping)\<close>: a cell that is no key of the dict becomes NaN.\<close>

definition series_map :: "(cell \<rightharpoonup> nat) \<Rightarrow> series \<Rightarrow> series" where
  "series_map mapping xs = map (\<lambda>v. case mapping v of None \<Rightarrow> Missing | Some i \<Rightarrow> Num (real i)) xs"

text \<open>
  \<^verbatim>\<open>
  for column in categorical_columns:
      mapping = create_mapping(column)
      dataframe[column] = dataframe[column].map(mapping)
      column_mappings[column] = mapping
  \<close>
\<close>

fun encode_columns ::
  "dataframe \<times> (string \<rightharpoonup> (cell \<rightharpoonup> nat)) \<Rightarrow> string list \<Rightarrow>
     error + dataframe \<times> (string \<rightharpoonup> (cell \<rightharpoonup> nat))" where
  "encode_columns (df, column_mappings) [] = Inr (df, column_mappings)"
| "encode_columns (df, column_mappings) (column # cols) =
     (case create_mapping df column of
        Inl e \<Rightarrow> Inl e
      | Inr mapping \<Rightarrow>
          (case getitem df column of
             Inl e \<Rightarrow> Inl e
           | Inr xs \<Rightarrow>
               encode_columns
                 (setitem df column (series_map mapping xs), column_mappings(column \<mapsto> mapping))
                 cols))"

definition categorical_columns :: "string list" where
  "categorical_columns = [''state_code'', ''city'', ''category_code'', ''founded_year'', ''status'']"

text \<open>The position of the first cell equal to \<open>v\<close>, scanning from the top.\<close>

definition first_position :: "series \<Rightarrow> cell \<Rightarrow> nat" where
  "first_position xs v = length (takeWhile (\<lambda>x. x \<noteq> v) xs)"

subsection \<open>Date normalizer (lines 522-532)\<close>

definition is_date :: "cell \<Rightarrow> bool" where
  "is_date c = (case c of Missing \<Rightarrow> True | Date _ \<Rightarrow> True | _ \<Rightarrow> False)"

fun notna_dates :: "series \<Rightarrow> int list" where
  "notna_dates [] = []"
| "notna_dates (Date d # xs) = d # notna_dates xs"
| "notna_dates (_ # xs) = notna_dates xs"

text \<open>\<^verbatim>\<open>min()\<close> of datetimes: the earliest timestamp that is not NaT, NaT when there is none.\<close>

definition date_min :: "series \<Rightarrow> cell" where
  "date_min xs = (let ds = notna_dates xs in if ds = [] then Missing else Date (min_list ds))"

text \<open>
  \<^verbatim>\<open>dataframe[labels]\<close> with a list of labels: raises KeyError naming the labels that
  are not columns.
\<close>

definition getitems :: "dataframe \<Rightarrow> string list \<Rightarrow> error + dataframe" where
  "getitems df labels =
     (let absent = filter (\<lambda>l. l \<notin> set (columns df)) labels
      in if absent \<noteq> [] then Inl (KeyError absent)
         else Inr (map (\<lambda>l. (l, case map_of df l of Some xs \<Rightarrow> xs | None \<Rightarrow> [])) labels))"

definition ns_per_day :: int where
  "ns_per_day = 86400000000000"

text \<open>
  One entry of \<^verbatim>\<open>(dataframe[column] - reference_date).dt.days\<close>: the whole days of the
  difference, NaN where the cell or the reference date is NaT.
\<close>

definition days_since :: "cell \<Rightarrow> cell \<Rightarrow> cell" where
  "days_since reference_date c =
     (case (c, reference_date) of
        (Date d, Date r) \<Rightarrow> Num (of_int ((d - r) div ns_per_day))
      | _ \<Rightarrow> Missing)"

definition date_columns :: "string list" where
  "date_columns = [''founded_at'', ''first_funding_at'', ''last_funding_at'']"

fun convert_loop :: "dataframe \<Rightarrow> cell \<Rightarrow> string list \<Rightarrow> error + dataframe" where
  "convert_loop df reference_date [] = Inr df"
| "convert_loop df reference_date (column # cols) =
     (case getitem df column of
        Inl e \<Rightarrow> Inl e
      | Inr xs \<Rightarrow>
          convert_loop (setitem df (column @ ''_days'') (map (days_since reference_date) xs))
            reference_date cols)"

text \<open>
  \<^verbatim>\<open>
  reference_date = dataframe[['founded_at', 'first_funding_at', 'last_funding_at']].min().min()
  columns_to_convert = ['founded_at', 'first_funding_at', 'last_funding_at']
  for column in columns_to_convert:
      dataframe[f'{column}_days'] = (dataframe[column] - reference_date).dt.days
  dataframe.drop(['founded_at', 'first_funding_at', 'last_funding_at'], axis=1, inplace=True)
  \<close>
  The subtraction and \<^verbatim>\<open>.dt\<close> need datetime columns; a column with another kind of
  cell raises.
\<close>

definition reference_date_of :: "dataframe \<Rightarrow> error + cell" where
  "reference_date_of df =
     (case getitems df date_columns of
        Inl e \<Rightarrow> Inl e
      | Inr sub \<Rightarrow> Inr (date_min (map (\<lambda>(_, xs). date_min xs) sub)))"

definition date_normalizer :: "dataframe \<Rightarrow> error + dataframe" where
  "date_normalizer df =
     (case reference_date_of df of
        Inl e \<Rightarrow> Inl e
      | Inr reference_date \<Rightarrow>
          (if list_all (\<lambda>c. case getitem df c of Inr xs \<Rightarrow> list_all is_date xs | Inl _ \<Rightarrow> False)
                date_columns
           then
             (case convert_loop df reference_date date_columns of
                Inl e \<Rightarrow> Inl e
              | Inr df1 \<Rightarrow> drop_columns df1 date_columns)
           else Inl TypeError))"

section \<open>Properties\<close>

subsection \<open>Reading and writing columns\<close>

lemma columns_setitem: "col \<in> set (columns df) \<Longrightarrow> columns (setitem df col xs) = columns df"
  by (induction df) (force simp: columns_def)+

lemma set_columns_setitem: "set (columns (setitem df col xs)) = insert col (set (columns df))"
  by (induction df) (force simp: columns_def)+

lemma map_of_absent: "col \<notin> set (columns df) \<Longrightarrow> map_of df col = None"
  by (simp add: columns_def map_of_eq_None_iff)

lemma map_of_present: "col \<in> set (columns df) \<Longrightarrow> \<exists>xs. map_of df col = Some xs"
  by (cases "map_of df col") (auto simp: columns_def map_of_eq_None_iff)

lemma getitem_setitem: "getitem (setitem df col xs) c = (if c = col then Inr xs else getitem df c)"
  by (induction df) (auto simp: getitem_def)

lemma setitem_same: "getitem df col = Inr xs \<Longrightarrow> setitem df col xs = df"
  by (induction df) (auto simp: getitem_def split: option.splits if_splits)

lemma getitem_columns: "col \<in> set (columns df) \<longleftrightarrow> (\<exists>xs. getitem df col = Inr xs)"
  using map_of_absent[of col df] map_of_present[of col df]
  by (cases "col \<in> set (columns df)") (auto simp: getitem_def)

lemma getitem_absent: "col \<notin> set (columns df) \<Longrightarrow> getitem df col = Inl (KeyError [col])"
  by (simp add: getitem_def map_of_absent)















subsection \<open>Outlier flagger\<close>

lemma length_column_outliers: "column_outliers xs t = Inr bs \<Longrightarrow> length bs = length xs"
  by (auto simp: column_outliers_def split: sum.splits)

lemma column_outliers_nth:
  "column_outliers xs t = Inr bs \<Longrightarrow> i < length xs \<Longrightarrow>
     bs ! i \<longleftrightarrow>
       (\<exists>v mu sd. (xs ! i = Num v \<or> (\<exists>k. xs ! i = Int64 k \<and> v = real_of_int (sint k))) \<and>
          mean xs = Inr (Num mu) \<and> std xs = Inr (Num sd) \<and> \<bar>v - mu\<bar> > t * sd)"
  by (auto simp: column_outliers_def exceeds_def split: sum.splits cell.splits)

lemma column_outliers_defined:
  "mean xs = Inr m \<Longrightarrow> std xs = Inr s \<Longrightarrow> \<exists>bs. column_outliers xs t = Inr bs"
  by (simp add: column_outliers_def)

lemma ior_cell_flag:
  "c = Num 0 \<or> c = Num 1 \<Longrightarrow>
     ior_cell c (astype_int b) = (if c = Num 1 \<or> b then Num 1 else Num 0)"
  by (auto simp: ior_cell_def astype_int_def)

lemma map2_ior_flags:
  "length bs = length flags \<Longrightarrow> set flags \<subseteq> {Num 0, Num 1} \<Longrightarrow>
     map2 ior_cell flags (map astype_int bs) =
       map2 (\<lambda>c b. if c = Num 1 \<or> b then Num 1 else Num 0) flags bs"
proof (induction flags bs rule: list_induct2')
  case (4 c flags b bs)
  then have "c = Num 0 \<or> c = Num 1" by auto
  with 4 show ?case by (simp add: ior_cell_flag)
qed simp_all

lemma set_map2_flags:
  "set (map2 (\<lambda>c b. if c = Num 1 \<or> b then Num 1 else Num 0) flags bs) \<subseteq> {Num 0, Num 1}"
  by (induction flags bs rule: list_induct2') auto

lemma outlier_loop_inv:
  assumes "outlier_loop df cols t = Inr df'"
    and "''is_outlier'' \<notin> set cols"
    and "getitem df ''is_outlier'' = Inr flags"
    and "set flags \<subseteq> {Num 0, Num 1}"
    and "\<And>c xs. getitem df c = Inr xs \<Longrightarrow> length xs = length flags"
  shows "\<exists>flags'. getitem df' ''is_outlier'' = Inr flags' \<and> length flags' = length flags \<and>
           set flags' \<subseteq> {Num 0, Num 1} \<and>
           (\<forall>c. c \<noteq> ''is_outlier'' \<longrightarrow> getitem df' c = getitem df c) \<and>
           (\<forall>i<length flags. flags' ! i = Num 1 \<longleftrightarrow>
              flags ! i = Num 1 \<or>
              (\<exists>c\<in>set cols. \<exists>xs bs. getitem df c = Inr xs \<and> column_outliers xs t = Inr bs \<and> bs ! i))"
  using assms
proof (induction cols arbitrary: df flags)
  case Nil
  from Nil.prems(1,3,4) show ?case by simp
next
  case (Cons col cols)
  from Cons.prems(2) have ne: "col \<noteq> ''is_outlier''" and notin: "''is_outlier'' \<notin> set cols"
    by auto
  show ?case
  proof (cases "col \<in> set (columns df)")
    case False
    with Cons.prems(1) have run: "outlier_loop df cols t = Inr df'" by simp
    from False have "\<And>xs. getitem df col \<noteq> Inr xs" by (simp add: getitem_absent)
    moreover have "\<exists>flags'. getitem df' ''is_outlier'' = Inr flags' \<and> length flags' = length flags \<and>
           set flags' \<subseteq> {Num 0, Num 1} \<and>
           (\<forall>c. c \<noteq> ''is_outlier'' \<longrightarrow> getitem df' c = getitem df c) \<and>
           (\<forall>i<length flags. flags' ! i = Num 1 \<longleftrightarrow>
              flags ! i = Num 1 \<or>
              (\<exists>c\<in>set cols. \<exists>xs bs. getitem df c = Inr xs \<and> column_outliers xs t = Inr bs \<and> bs ! i))"
      by (rule Cons.IH[OF run notin Cons.prems(3,4)]) (rule Cons.prems(5))
    ultimately show ?thesis by simp
  next
    case True
    then obtain xs where xs: "getitem df col = Inr xs" by (auto simp: getitem_columns)
    with True Cons.prems(1,3) obtain bs where bs: "column_outliers xs t = Inr bs"
      and run: "outlier_loop (setitem df ''is_outlier'' (map2 ior_cell flags (map astype_int bs))) cols t = Inr df'"
      by (auto split: sum.splits)
    let ?f1 = "map2 (\<lambda>c b. if c = Num 1 \<or> b then Num 1 else Num 0) flags bs"
    let ?df1 = "setitem df ''is_outlier'' ?f1"
    have len: "length bs = length flags"
      using length_column_outliers[OF bs] Cons.prems(5)[OF xs] by simp
    have f1: "map2 ior_cell flags (map astype_int bs) = ?f1"
      using len Cons.prems(4) by (rule map2_ior_flags)
    have run1: "outlier_loop ?df1 cols t = Inr df'" using run f1 by simp
    have g1: "getitem ?df1 ''is_outlier'' = Inr ?f1" by (simp add: getitem_setitem)
    have other: "\<And>c. c \<noteq> ''is_outlier'' \<Longrightarrow> getitem ?df1 c = getitem df c"
      by (simp add: getitem_setitem)
    have len1: "length ?f1 = length flags" using len by simp
    have set1: "set ?f1 \<subseteq> {Num 0, Num 1}"
      by (rule set_map2_flags)
    have lens1: "\<And>c ys. getitem ?df1 c = Inr ys \<Longrightarrow> length ys = length ?f1"
    proof -
      fix c ys assume g: "getitem ?df1 c = Inr ys"
      show "length ys = length ?f1"
      proof (cases "c = ''is_outlier''")
        case True
        with g show ?thesis by (simp add: getitem_setitem)
      next
        case False
        with g have "getitem df c = Inr ys" by (simp add: getitem_setitem)
        then have "length ys = length flags" by (rule Cons.prems(5))
        with len1 show ?thesis by simp
      qed
    qed
    have "\<exists>flags'. getitem df' ''is_outlier'' = Inr flags' \<and> length flags' = length ?f1 \<and>
           set flags' \<subseteq> {Num 0, Num 1} \<and>
           (\<forall>c. c \<noteq> ''is_outlier'' \<longrightarrow> getitem df' c = getitem ?df1 c) \<and>
           (\<forall>i<length ?f1. flags' ! i = Num 1 \<longleftrightarrow>
              ?f1 ! i = Num 1 \<or>
              (\<exists>c\<in>set cols. \<exists>xs bs. getitem ?df1 c = Inr xs \<and> column_outliers xs t = Inr bs \<and> bs ! i))"
      by (rule Cons.IH[OF run1 notin g1 set1]) (rule lens1)
    then obtain flags' where fl: "getitem df' ''is_outlier'' = Inr flags'"
      and l': "length flags' = length ?f1" and s': "set flags' \<subseteq> {Num 0, Num 1}"
      and o': "\<forall>c. c \<noteq> ''is_outlier'' \<longrightarrow> getitem df' c = getitem ?df1 c"
      and i': "\<forall>i<length ?f1. flags' ! i = Num 1 \<longleftrightarrow>
              ?f1 ! i = Num 1 \<or>
              (\<exists>c\<in>set cols. \<exists>xs bs. getitem ?df1 c = Inr xs \<and> column_outliers xs t = Inr bs \<and> bs ! i)"
      by (elim exE conjE) (rule that)
    have nth1: "\<And>i. i < length flags \<Longrightarrow> ?f1 ! i = Num 1 \<longleftrightarrow> flags ! i = Num 1 \<or> bs ! i"
      using len by simp
    have cols_same: "\<And>c. c \<in> set cols \<Longrightarrow> getitem ?df1 c = getitem df c"
    proof -
      fix c assume "c \<in> set cols"
      with notin have "c \<noteq> ''is_outlier''" by blast
      then show "getitem ?df1 c = getitem df c" by (rule other)
    qed
    have "\<forall>i<length flags. flags' ! i = Num 1 \<longleftrightarrow>
              flags ! i = Num 1 \<or>
              (\<exists>c\<in>set (col # cols). \<exists>xs bs. getitem df c = Inr xs \<and> column_outliers xs t = Inr bs \<and> bs ! i)"
    proof (intro allI impI)
      fix i assume i: "i < length flags"
      have "flags' ! i = Num 1 \<longleftrightarrow> ?f1 ! i = Num 1 \<or>
              (\<exists>c\<in>set cols. \<exists>xs bs. getitem ?df1 c = Inr xs \<and> column_outliers xs t = Inr bs \<and> bs ! i)"
        using i' i len1 by simp
      also have "\<dots> \<longleftrightarrow> (flags ! i = Num 1 \<or> bs ! i) \<or>
              (\<exists>c\<in>set cols. \<exists>xs bs. getitem df c = Inr xs \<and> column_outliers xs t = Inr bs \<and> bs ! i)"
        unfolding nth1[OF i] using cols_same by (metis (no_types, lifting))
      also have "\<dots> \<longleftrightarrow> flags ! i = Num 1 \<or>
              (\<exists>c\<in>set (col # cols). \<exists>xs bs. getitem df c = Inr xs \<and> column_outliers xs t = Inr bs \<and> bs ! i)"
        using xs bs by fastforce
      finally show "flags' ! i = Num 1 \<longleftrightarrow>
              flags ! i = Num 1 \<or>
              (\<exists>c\<in>set (col # cols). \<exists>xs bs. getitem df c = Inr xs \<and> column_outliers xs t = Inr bs \<and> bs ! i)" .
    qed
    moreover have "\<forall>c. c \<noteq> ''is_outlier'' \<longrightarrow> getitem df' c = getitem df c"
      using o' other by simp
    ultimately show ?thesis using fl l' len1 s' by (intro exI[of _ flags']) simp
  qed
qed

lemma wf_getitem_length: "wf df \<Longrightarrow> getitem df c = Inr xs \<Longrightarrow> length xs = nrows df"
proof -
  assume w: "wf df" and g: "getitem df c = Inr xs"
  from g have "map_of df c = Some xs" by (simp add: getitem_def split: option.splits)
  then have "(c, xs) \<in> set df" by (rule map_of_SomeD)
  moreover from w have "\<forall>p\<in>set df. (case p of (_, ys) \<Rightarrow> length ys = nrows df)"
    by (simp add: wf_def list_all_iff)
  ultimately show ?thesis by fastforce
qed

lemma identify_outliers_char:
  assumes w: "wf df" and notin: "''is_outlier'' \<notin> set cols"
    and run: "identify_outliers df cols t = Inr df'"
  shows "\<exists>flags. getitem df' ''is_outlier'' = Inr flags \<and> length flags = nrows df \<and>
           set flags \<subseteq> {Num 0, Num 1} \<and>
           (\<forall>c. c \<noteq> ''is_outlier'' \<longrightarrow> getitem df' c = getitem df c) \<and>
           (\<forall>i<nrows df. flags ! i = Num 1 \<longleftrightarrow>
              (\<exists>c\<in>set cols. \<exists>xs bs. getitem df c = Inr xs \<and> column_outliers xs t = Inr bs \<and> bs ! i))"
proof -
  let ?z = "replicate (nrows df) (Num 0)"
  let ?df0 = "setitem df ''is_outlier'' ?z"
  have run0: "outlier_loop ?df0 cols t = Inr df'" using run by (simp add: identify_outliers_def)
  have g0: "getitem ?df0 ''is_outlier'' = Inr ?z" by (simp add: getitem_setitem)
  have s0: "set ?z \<subseteq> {Num 0, Num 1}" by auto
  have other: "\<And>c. c \<noteq> ''is_outlier'' \<Longrightarrow> getitem ?df0 c = getitem df c"
    by (simp add: getitem_setitem)
  have l0: "\<And>c xs. getitem ?df0 c = Inr xs \<Longrightarrow> length xs = length ?z"
  proof -
    fix c xs assume g: "getitem ?df0 c = Inr xs"
    show "length xs = length ?z"
    proof (cases "c = ''is_outlier''")
      case True
      with g show ?thesis by (simp add: getitem_setitem)
    next
      case False
      with g have "getitem df c = Inr xs" by (simp add: getitem_setitem)
      with w have "length xs = nrows df" by (rule wf_getitem_length)
      then show ?thesis by simp
    qed
  qed
  have "\<exists>flags'. getitem df' ''is_outlier'' = Inr flags' \<and> length flags' = length ?z \<and>
           set flags' \<subseteq> {Num 0, Num 1} \<and>
           (\<forall>c. c \<noteq> ''is_outlier'' \<longrightarrow> getitem df' c = getitem ?df0 c) \<and>
           (\<forall>i<length ?z. flags' ! i = Num 1 \<longleftrightarrow>
              ?z ! i = Num 1 \<or>
              (\<exists>c\<in>set cols. \<exists>xs bs. getitem ?df0 c = Inr xs \<and> column_outliers xs t = Inr bs \<and> bs ! i))"
    by (rule outlier_loop_inv[OF run0 notin g0 s0]) (rule l0)
  then obtain flags where fl: "getitem df' ''is_outlier'' = Inr flags"
    and len: "length flags = length ?z" and st: "set flags \<subseteq> {Num 0, Num 1}"
    and o: "\<forall>c. c \<noteq> ''is_outlier'' \<longrightarrow> getitem df' c = getitem ?df0 c"
    and it: "\<forall>i<length ?z. flags ! i = Num 1 \<longleftrightarrow>
              ?z ! i = Num 1 \<or>
              (\<exists>c\<in>set cols. \<exists>xs bs. getitem ?df0 c = Inr xs \<and> column_outliers xs t = Inr bs \<and> bs ! i)"
    by (elim exE conjE) (rule that)
  have cols_same: "\<And>c. c \<in> set cols \<Longrightarrow> getitem ?df0 c = getitem df c"
  proof -
    fix c assume "c \<in> set cols"
    with notin have "c \<noteq> ''is_outlier''" by blast
    then show "getitem ?df0 c = getitem df c" by (rule other)
  qed
  have "\<forall>i<nrows df. flags ! i = Num 1 \<longleftrightarrow>
              (\<exists>c\<in>set cols. \<exists>xs bs. getitem df c = Inr xs \<and> column_outliers xs t = Inr bs \<and> bs ! i)"
  proof (intro allI impI)
    fix i assume i: "i < nrows df"
    then have "flags ! i = Num 1 \<longleftrightarrow>
              (\<exists>c\<in>set cols. \<exists>xs bs. getitem ?df0 c = Inr xs \<and> column_outliers xs t = Inr bs \<and> bs ! i)"
      using it by simp
    also have "\<dots> \<longleftrightarrow>
              (\<exists>c\<in>set cols. \<exists>xs bs. getitem df c = Inr xs \<and> column_outliers xs t = Inr bs \<and> bs ! i)"
      using cols_same by (metis (no_types, lifting))
    finally show "flags ! i = Num 1 \<longleftrightarrow>
              (\<exists>c\<in>set cols. \<exists>xs bs. getitem df c = Inr xs \<and> column_outliers xs t = Inr bs \<and> bs ! i)" .
  qed
  moreover have "\<forall>c. c \<noteq> ''is_outlier'' \<longrightarrow> getitem df' c = getitem df c"
    using o other by simp
  moreover have "length flags = nrows df" using len by simp
  ultimately show ?thesis using fl st by (intro exI[of _ flags]) simp
qed

lemma sum_squares_nonneg: "0 \<le> (\<Sum>v\<leftarrow>vs. (v - m)\<^sup>2)" for m :: real
  by (rule sum_list_nonneg) auto

lemma std_nonneg: "std xs = Inr (Num sd) \<Longrightarrow> 0 \<le> sd"
  by (auto simp: std_def Let_def split: if_splits intro!: divide_nonneg_nonneg sum_squares_nonneg)

lemma exceeds_antitone:
  "t1 \<le> t2 \<Longrightarrow> (0::real) \<le> sd \<Longrightarrow> \<bar>v - mu\<bar> > t2 * sd \<Longrightarrow> \<bar>v - mu\<bar> > t1 * sd"
proof -
  assume "t1 \<le> t2" "0 \<le> sd" and gt: "\<bar>v - mu\<bar> > t2 * sd"
  then have "t1 * sd \<le> t2 * sd" by (simp add: mult_right_mono)
  with gt show ?thesis by linarith
qed

lemma length_filter_mono:
  "(\<And>x. x \<in> set xs \<Longrightarrow> P x \<Longrightarrow> Q x) \<Longrightarrow> length (filter P xs) \<le> length (filter Q xs)"
  by (induction xs) auto

lemma run_example_outliers:
  "identify_outliers [(''funding_rounds'', [Num 0, Num 0, Num 0, Num 4])] [''funding_rounds''] 1 =
     Inr [(''funding_rounds'', [Num 0, Num 0, Num 0, Num 4]),
          (''is_outlier'', [Num 0, Num 0, Num 0, Num 1])]"
  by (simp add: identify_outliers_def nrows_def columns_def getitem_def column_outliers_def
      mean_def std_def numeric_def is_numeric_def exceeds_def ior_cell_def astype_int_def Let_def
      power2_eq_square)

lemma flagged_iff:
  "getitem d ''is_outlier'' = Inr flags \<Longrightarrow> flagged d i \<longleftrightarrow> i < length flags \<and> flags ! i = Num 1"
  by (simp add: flagged_def)

text \<open>
  C7. For two thresholds \<open>t1 \<le> t2\<close> on the same well-formed table and monitored labels
  (other than the indicator's own), every row flagged at \<open>t2\<close> is flagged at \<open>t1\<close>, so the
  number of flagged rows at \<open>t2\<close> is at most the number at \<open>t1\<close>.
\<close>

theorem identify_outliers_antitone:
  assumes w: "wf df" and notin: "''is_outlier'' \<notin> set cols" and le: "t1 \<le> t2"
    and r1: "identify_outliers df cols t1 = Inr d1"
    and r2: "identify_outliers df cols t2 = Inr d2"
  shows "(\<forall>i. flagged d2 i \<longrightarrow> flagged d1 i) \<and>
         length (filter (flagged d2) [0..<nrows df]) \<le> length (filter (flagged d1) [0..<nrows df])"
proof -
  from identify_outliers_char[OF w notin r1]
  obtain f1 where fl1: "getitem d1 ''is_outlier'' = Inr f1" and len1: "length f1 = nrows df"
    and it1: "\<forall>i<nrows df. f1 ! i = Num 1 \<longleftrightarrow>
              (\<exists>c\<in>set cols. \<exists>xs bs. getitem df c = Inr xs \<and> column_outliers xs t1 = Inr bs \<and> bs ! i)"
    by (elim exE conjE) (rule that)
  from identify_outliers_char[OF w notin r2]
  obtain f2 where fl2: "getitem d2 ''is_outlier'' = Inr f2" and len2: "length f2 = nrows df"
    and it2: "\<forall>i<nrows df. f2 ! i = Num 1 \<longleftrightarrow>
              (\<exists>c\<in>set cols. \<exists>xs bs. getitem df c = Inr xs \<and> column_outliers xs t2 = Inr bs \<and> bs ! i)"
    by (elim exE conjE) (rule that)
  have sub: "flagged d1 i" if f: "flagged d2 i" for i
  proof -
    from f fl2 len2 have i: "i < nrows df" and one: "f2 ! i = Num 1"
      by (simp_all add: flagged_iff)
    with it2 obtain c xs bs where c: "c \<in> set cols" and xs: "getitem df c = Inr xs"
      and bs: "column_outliers xs t2 = Inr bs" and b: "bs ! i" by blast
    from w xs have "length xs = nrows df" by (rule wf_getitem_length)
    with i have ix: "i < length xs" by simp
    from column_outliers_nth[OF bs ix] b
    obtain v mu sd where v: "xs ! i = Num v \<or> (\<exists>k. xs ! i = Int64 k \<and> v = real_of_int (sint k))"
      and m: "mean xs = Inr (Num mu)"
      and s: "std xs = Inr (Num sd)" and gt: "\<bar>v - mu\<bar> > t2 * sd" by blast
    from s have nn: "0 \<le> sd" by (rule std_nonneg)
    from le nn gt have gt1: "\<bar>v - mu\<bar> > t1 * sd" by (rule exceeds_antitone)
    from column_outliers_defined[OF m s] obtain bs1 where bs1: "column_outliers xs t1 = Inr bs1"
      by blast
    from column_outliers_nth[OF bs1 ix] v m s gt1 have "bs1 ! i" by blast
    with c xs bs1 have "\<exists>c\<in>set cols. \<exists>xs bs. getitem df c = Inr xs \<and> column_outliers xs t1 = Inr bs \<and> bs ! i"
      by blast
    with it1 i have "f1 ! i = Num 1" by simp
    with i len1 fl1 show ?thesis by (simp add: flagged_iff)
  qed
  then have "length (filter (flagged d2) [0..<nrows df]) \<le> length (filter (flagged d1) [0..<nrows df])"
    by (intro length_filter_mono)
  with sub show ?thesis by blast
qed

lemma run_example_outliers2:
  "identify_outliers [(''funding_rounds'', [Num 0, Num 0, Num 0, Num 4])] [''funding_rounds''] 2 =
     Inr [(''funding_rounds'', [Num 0, Num 0, Num 0, Num 4]),
          (''is_outlier'', [Num 0, Num 0, Num 0, Num 0])]"
  by (simp add: identify_outliers_def nrows_def columns_def getitem_def column_outliers_def
      mean_def std_def numeric_def is_numeric_def exceeds_def ior_cell_def astype_int_def Let_def
      power2_eq_square)

theorem identify_outliers_antitone_witness:
  "wf [(''funding_rounds'', [Num 0, Num 0, Num 0, Num 4])] \<and>
   ''is_outlier'' \<notin> set [''funding_rounds''] \<and> (1::real) \<le> 2 \<and>
   identify_outliers [(''funding_rounds'', [Num 0, Num 0, Num 0, Num 4])] [''funding_rounds''] 1 =
     Inr [(''funding_rounds'', [Num 0, Num 0, Num 0, Num 4]),
          (''is_outlier'', [Num 0, Num 0, Num 0, Num 1])] \<and>
   identify_outliers [(''funding_rounds'', [Num 0, Num 0, Num 0, Num 4])] [''funding_rounds''] 2 =
     Inr [(''funding_rounds'', [Num 0, Num 0, Num 0, Num 4]),
          (''is_outlier'', [Num 0, Num 0, Num 0, Num 0])] \<and>
   length (filter (flagged [(''funding_rounds'', [Num 0, Num 0, Num 0, Num 4]),
          (''is_outlier'', [Num 0, Num 0, Num 0, Num 0])])
        [0..<nrows [(''funding_rounds'', [Num 0, Num 0, Num 0, Num 4])]])
     \<le> length (filter (flagged [(''funding_rounds'', [Num 0, Num 0, Num 0, Num 4]),
          (''is_outlier'', [Num 0, Num 0, Num 0, Num 1])])
        [0..<nrows [(''funding_rounds'', [Num 0, Num 0, Num 0, Num 4])]]) \<and>
   flagged [(''funding_rounds'', [Num 0, Num 0, Num 0, Num 4]),
          (''is_outlier'', [Num 0, Num 0, Num 0, Num 1])] 3 \<and>
   \<not> flagged [(''funding_rounds'', [Num 0, Num 0, Num 0, Num 4]),
          (''is_outlier'', [Num 0, Num 0, Num 0, Num 0])] 3"
proof -
  have w: "wf [(''funding_rounds'', [Num 0, Num 0, Num 0, Num 4])]"
    by (simp add: wf_def columns_def nrows_def)
  have n: "''is_outlier'' \<notin> set [''funding_rounds'']" by simp
  have le: "(1::real) \<le> 2" by simp
  have f1: "flagged [(''funding_rounds'', [Num 0, Num 0, Num 0, Num 4]),
          (''is_outlier'', [Num 0, Num 0, Num 0, Num 1])] 3"
    by (simp add: flagged_def getitem_def)
  have f2: "\<not> flagged [(''funding_rounds'', [Num 0, Num 0, Num 0, Num 4]),
          (''is_outlier'', [Num 0, Num 0, Num 0, Num 0])] 3"
    by (simp add: flagged_def getitem_def)
  from identify_outliers_antitone[OF w n le run_example_outliers run_example_outliers2]
  have "length (filter (flagged [(''funding_rounds'', [Num 0, Num 0, Num 0, Num 4]),
          (''is_outlier'', [Num 0, Num 0, Num 0, Num 0])])
        [0..<nrows [(''funding_rounds'', [Num 0, Num 0, Num 0, Num 4])]])
     \<le> length (filter (flagged [(''funding_rounds'', [Num 0, Num 0, Num 0, Num 4]),
          (''is_outlier'', [Num 0, Num 0, Num 0, Num 1])])
        [0..<nrows [(''funding_rounds'', [Num 0, Num 0, Num 0, Num 4])]])"
    by (rule conjunct2)
  with w n le run_example_outliers run_example_outliers2 f1 f2 show ?thesis
    by (intro conjI)
qed

lemma notna_values_mem:
  "x \<in> set xs \<Longrightarrow> x = Num v \<or> (\<exists>k. x = Int64 k \<and> v = real_of_int (sint k)) \<Longrightarrow>
     v \<in> set (notna_values xs)"
  by (induction xs rule: notna_values.induct) auto

lemma sum_squares_zero:
  fixes m :: real
  assumes "(\<Sum>v\<leftarrow>vs. (v - m)\<^sup>2) = 0" and "v \<in> set vs"
  shows "v = m"
proof -
  have "\<forall>x\<in>set (map (\<lambda>v. (v - m)\<^sup>2) vs). 0 \<le> x" by auto
  then have "\<forall>x\<in>set (map (\<lambda>v. (v - m)\<^sup>2) vs). x = 0"
    using assms(1) by (simp only: sum_list_nonneg_eq_0_iff)
  with assms(2) have "(v - m)\<^sup>2 = 0" by simp
  then show ?thesis by simp
qed

lemma std_zero_constant:
  assumes "std xs = Inr (Num 0)"
  shows "\<exists>m. mean xs = Inr (Num m) \<and>
           (\<forall>x\<in>set xs. \<forall>v. x = Num v \<or> (\<exists>k. x = Int64 k \<and> v = real_of_int (sint k)) \<longrightarrow> v = m)"
proof -
  let ?vs = "notna_values xs"
  let ?m = "sum_list ?vs / real (length ?vs)"
  from assms have num: "numeric xs" and n: "\<not> length ?vs < 2"
    by (auto simp: std_def Let_def split: if_splits)
  from assms num n have "sqrt ((\<Sum>v\<leftarrow>?vs. (v - ?m)\<^sup>2) / real (length ?vs - 1)) = 0"
    by (simp add: std_def Let_def)
  then have "(\<Sum>v\<leftarrow>?vs. (v - ?m)\<^sup>2) / real (length ?vs - 1) = 0" by simp
  moreover from n have "real (length ?vs - 1) \<noteq> 0" by simp
  ultimately have z: "(\<Sum>v\<leftarrow>?vs. (v - ?m)\<^sup>2) = 0" by simp
  from n have "?vs \<noteq> []" by auto
  with num have "mean xs = Inr (Num ?m)" by (simp add: mean_def Let_def)
  moreover have "\<forall>x\<in>set xs. \<forall>v. x = Num v \<or> (\<exists>k. x = Int64 k \<and> v = real_of_int (sint k)) \<longrightarrow> v = ?m"
  proof (intro ballI allI impI)
    fix x v assume "x \<in> set xs" and "x = Num v \<or> (\<exists>k. x = Int64 k \<and> v = real_of_int (sint k))"
    then have "v \<in> set ?vs" by (rule notna_values_mem)
    with z show "v = ?m" by (rule sum_squares_zero)
  qed
  ultimately show ?thesis by blast
qed

lemma column_outliers_std_zero:
  assumes "std xs = Inr (Num 0)"
  shows "column_outliers xs t = Inr (replicate (length xs) False)"
proof -
  from std_zero_constant[OF assms] obtain m where m: "mean xs = Inr (Num m)"
    and c: "\<forall>x\<in>set xs. \<forall>v. x = Num v \<or> (\<exists>k. x = Int64 k \<and> v = real_of_int (sint k)) \<longrightarrow> v = m"
    by blast
  have "exceeds t (Num m) (Num 0) x = False" if "x \<in> set xs" for x
  proof (cases x)
    case (Num v)
    with that c have "v = m" by blast
    with Num show ?thesis by (simp add: exceeds_def)
  next
    case (Int64 k)
    with that c have "real_of_int (sint k) = m" by blast
    with Int64 show ?thesis by (simp add: exceeds_def)
  qed (simp_all add: exceeds_def)
  then have "map (exceeds t (Num m) (Num 0)) xs = replicate (length xs) False"
    by (induction xs) auto
  with m assms show ?thesis by (simp add: column_outliers_def)
qed

lemma map2_ior_none:
  "length flags = n \<Longrightarrow> set flags \<subseteq> {Num 0, Num 1} \<Longrightarrow>
     map2 ior_cell flags (map astype_int (replicate n False)) = flags"
proof (induction flags arbitrary: n)
  case Nil
  then show ?case by simp
next
  case (Cons c flags)
  then obtain k where k: "n = Suc k" by (cases n) auto
  from Cons.prems have c: "c = Num 0 \<or> c = Num 1" by auto
  from Cons.prems k have "map2 ior_cell flags (map astype_int (replicate k False)) = flags"
    by (intro Cons.IH) auto
  with c k show ?case by (auto simp: ior_cell_def astype_int_def)
qed

lemma outlier_loop_skip:
  assumes "getitem df ''is_outlier'' = Inr flags"
    and "set flags \<subseteq> {Num 0, Num 1}"
    and "\<And>a ys. getitem df a = Inr ys \<Longrightarrow> length ys = length flags"
    and "c \<noteq> ''is_outlier''"
    and "getitem df c = Inr xs"
    and "column_outliers xs t = Inr (replicate (length xs) False)"
  shows "outlier_loop df (cs1 @ c # cs2) t = outlier_loop df (cs1 @ cs2) t"
  using assms(1,2,3,5)
proof (induction cs1 arbitrary: df flags)
  case Nil
  from Nil.prems(4) have len: "length xs = length flags" by (rule Nil.prems(3))
  from Nil.prems(4) have inc: "c \<in> set (columns df)" by (auto simp: getitem_columns)
  have "map2 ior_cell flags (map astype_int (replicate (length xs) False)) = flags"
    using len Nil.prems(2) by (intro map2_ior_none) simp_all
  with inc Nil.prems(1,4) assms(6) show ?case by (simp add: setitem_same)
next
  case (Cons a cs1)
  show ?case
  proof (cases "a \<in> set (columns df)")
    case False
    then have "outlier_loop df ((a # cs1) @ c # cs2) t = outlier_loop df (cs1 @ c # cs2) t"
      and "outlier_loop df ((a # cs1) @ cs2) t = outlier_loop df (cs1 @ cs2) t" by simp_all
    moreover have "outlier_loop df (cs1 @ c # cs2) t = outlier_loop df (cs1 @ cs2) t"
      by (rule Cons.IH[OF Cons.prems(1,2) _ Cons.prems(4)]) (rule Cons.prems(3))
    ultimately show ?thesis by simp
  next
    case True
    then obtain ys where ys: "getitem df a = Inr ys" by (auto simp: getitem_columns)
    show ?thesis
    proof (cases "column_outliers ys t")
      case (Inl e)
      with True ys show ?thesis by simp
    next
      case (Inr bs)
      let ?f1 = "map2 (\<lambda>c b. if c = Num 1 \<or> b then Num 1 else Num 0) flags bs"
      let ?df1 = "setitem df ''is_outlier'' ?f1"
      have len: "length bs = length flags"
        using length_column_outliers[OF Inr] Cons.prems(3)[OF ys] by simp
      have f1: "map2 ior_cell flags (map astype_int bs) = ?f1"
        using len Cons.prems(2) by (rule map2_ior_flags)
      have g1: "getitem ?df1 ''is_outlier'' = Inr ?f1" by (simp add: getitem_setitem)
      have set1: "set ?f1 \<subseteq> {Num 0, Num 1}" by (rule set_map2_flags)
      have len1: "length ?f1 = length flags" using len by simp
      have lens1: "\<And>b zs. getitem ?df1 b = Inr zs \<Longrightarrow> length zs = length ?f1"
      proof -
        fix b zs assume g: "getitem ?df1 b = Inr zs"
        show "length zs = length ?f1"
        proof (cases "b = ''is_outlier''")
          case True
          with g show ?thesis by (simp add: getitem_setitem)
        next
          case False
          with g have "getitem df b = Inr zs" by (simp add: getitem_setitem)
          then have "length zs = length flags" by (rule Cons.prems(3))
          with len1 show ?thesis by simp
        qed
      qed
      have c1: "getitem ?df1 c = Inr xs" using assms(4) Cons.prems(4) by (simp add: getitem_setitem)
      have ih: "outlier_loop ?df1 (cs1 @ c # cs2) t = outlier_loop ?df1 (cs1 @ cs2) t"
        by (rule Cons.IH[OF g1 set1 _ c1]) (rule lens1)
      from True ys Inr Cons.prems(1) f1
      have "outlier_loop df ((a # cs1) @ c # cs2) t = outlier_loop ?df1 (cs1 @ c # cs2) t"
        and "outlier_loop df ((a # cs1) @ cs2) t = outlier_loop ?df1 (cs1 @ cs2) t" by simp_all
      with ih show ?thesis by simp
    qed
  qed
qed

text \<open>
  With the exact real numbers of this model, a monitored column whose sample standard
  deviation is 0 flags no row, whatever the threshold, and can be struck from the monitored
  list without changing the result. The rounding and the underflow of float64 are not part
  of the model, so this says nothing of a column whose computed deviation is 0.0 or whose
  values are equal while the computed mean differs from them.
\<close>

lemma zero_std_exact:
  assumes "wf df" and "c \<noteq> ''is_outlier''" and "getitem df c = Inr xs"
    and "std xs = Inr (Num 0)"
  shows "column_outliers xs t = Inr (replicate (length xs) False) \<and>
         identify_outliers df (cs1 @ c # cs2) t = identify_outliers df (cs1 @ cs2) t"
proof -
  let ?z = "replicate (nrows df) (Num 0)"
  let ?df0 = "setitem df ''is_outlier'' ?z"
  have co: "column_outliers xs t = Inr (replicate (length xs) False)"
    using assms(4) by (rule column_outliers_std_zero)
  have g0: "getitem ?df0 ''is_outlier'' = Inr ?z" by (simp add: getitem_setitem)
  have s0: "set ?z \<subseteq> {Num 0, Num 1}" by auto
  have l0: "\<And>a ys. getitem ?df0 a = Inr ys \<Longrightarrow> length ys = length ?z"
  proof -
    fix a ys assume g: "getitem ?df0 a = Inr ys"
    show "length ys = length ?z"
    proof (cases "a = ''is_outlier''")
      case True
      with g show ?thesis by (simp add: getitem_setitem)
    next
      case False
      with g have "getitem df a = Inr ys" by (simp add: getitem_setitem)
      with assms(1) have "length ys = nrows df" by (rule wf_getitem_length)
      then show ?thesis by simp
    qed
  qed
  have c0: "getitem ?df0 c = Inr xs" using assms(2,3) by (simp add: getitem_setitem)
  have "outlier_loop ?df0 (cs1 @ c # cs2) t = outlier_loop ?df0 (cs1 @ cs2) t"
    by (rule outlier_loop_skip[OF g0 s0 _ assms(2) c0 co]) (rule l0)
  then have "identify_outliers df (cs1 @ c # cs2) t = identify_outliers df (cs1 @ cs2) t"
    by (simp add: identify_outliers_def)
  with co show ?thesis by (rule conjI)
qed

lemma example_mean: "mean [Num 1, Num 2, Num 3, Num 4, Num 100] = Inr (Num 22)"
  by (simp add: mean_def numeric_def is_numeric_def Let_def)

lemma example_std: "std [Num 1, Num 2, Num 3, Num 4, Num 100] = Inr (Num (sqrt (3805 / 2)))"
  by (simp add: std_def numeric_def is_numeric_def Let_def power2_eq_square)

lemma example_bound: "78 < 4 * sqrt (3805 / 2)"
proof -
  have "(43::real) \<le> sqrt (3805 / 2)" by (rule real_le_rsqrt) (simp add: power2_eq_square)
  then show ?thesis by linarith
qed

lemma example_not_exceeds:
  "\<bar>v - 22\<bar> \<le> 78 \<Longrightarrow> exceeds 4 (Num 22) (Num (sqrt (3805 / 2))) (Num v) = False"
  using example_bound by (simp add: exceeds_def)

lemma example_column_outliers:
  "column_outliers [Num 1, Num 2, Num 3, Num 4, Num 100] 4 = Inr [False, False, False, False, False]"
  by (simp add: column_outliers_def example_mean example_std example_not_exceeds)

lemma example_int64_mean: "mean [Int64 1, Int64 2, Int64 3, Int64 4, Int64 100] = Inr (Num 22)"
  by (simp add: mean_def numeric_def is_numeric_def Let_def)

lemma example_int64_std:
  "std [Int64 1, Int64 2, Int64 3, Int64 4, Int64 100] = Inr (Num (sqrt (3805 / 2)))"
  by (simp add: std_def numeric_def is_numeric_def Let_def power2_eq_square)

lemma example_int64_not_exceeds:
  "\<bar>real_of_int (sint k) - 22\<bar> \<le> 78 \<Longrightarrow>
     exceeds 4 (Num 22) (Num (sqrt (3805 / 2))) (Int64 k) = False"
  using example_bound by (simp add: exceeds_def)

lemma example_int64_column_outliers:
  "column_outliers [Int64 1, Int64 2, Int64 3, Int64 4, Int64 100] 4 =
     Inr [False, False, False, False, False]"
  by (simp add: column_outliers_def example_int64_mean example_int64_std
      example_int64_not_exceeds)

text \<open>
  C9. On the single monitored column [1, 2, 3, 4, 100] with the default threshold 4, the
  flagger marks no row, the row with 100 included: the mean is 22, the sample variance is
  1902.5, and \<open>\<bar>100 - 22\<bar> = 78\<close> does not exceed 4 times the sample standard deviation
  (\<open>78\<^sup>2 = 6084\<close> is not more than \<open>16 * 1902.5 = 30440\<close>). It is so whether the
  column holds floats or is an int64 column.
\<close>

theorem example_no_outlier_at_threshold_4:
  "identify_outliers_default
     [(''funding_total_usd'', [Num 1, Num 2, Num 3, Num 4, Num 100])] [''funding_total_usd''] =
   Inr [(''funding_total_usd'', [Num 1, Num 2, Num 3, Num 4, Num 100]),
        (''is_outlier'', [Num 0, Num 0, Num 0, Num 0, Num 0])] \<and>
   mean [Num 1, Num 2, Num 3, Num 4, Num 100] = Inr (Num 22) \<and>
   std [Num 1, Num 2, Num 3, Num 4, Num 100] = Inr (Num (sqrt 1902.5)) \<and>
   \<not> \<bar>100 - 22\<bar> > 4 * sqrt 1902.5 \<and>
   (78::real)\<^sup>2 = 6084 \<and> 16 * (1902.5::real) = 30440 \<and> \<not> (6084::real) > 30440 \<and>
   identify_outliers_default
     [(''funding_total_usd'', [Int64 1, Int64 2, Int64 3, Int64 4, Int64 100])]
     [''funding_total_usd''] =
   Inr [(''funding_total_usd'', [Int64 1, Int64 2, Int64 3, Int64 4, Int64 100]),
        (''is_outlier'', [Num 0, Num 0, Num 0, Num 0, Num 0])]"
proof -
  have run64: "identify_outliers_default
     [(''funding_total_usd'', [Int64 1, Int64 2, Int64 3, Int64 4, Int64 100])]
     [''funding_total_usd''] =
   Inr [(''funding_total_usd'', [Int64 1, Int64 2, Int64 3, Int64 4, Int64 100]),
        (''is_outlier'', [Num 0, Num 0, Num 0, Num 0, Num 0])]"
    by (simp add: identify_outliers_default_def identify_outliers_def nrows_def columns_def
        getitem_def example_int64_column_outliers ior_cell_def astype_int_def)
  have run: "identify_outliers_default
     [(''funding_total_usd'', [Num 1, Num 2, Num 3, Num 4, Num 100])] [''funding_total_usd''] =
   Inr [(''funding_total_usd'', [Num 1, Num 2, Num 3, Num 4, Num 100]),
        (''is_outlier'', [Num 0, Num 0, Num 0, Num 0, Num 0])]"
    by (simp add: identify_outliers_default_def identify_outliers_def nrows_def columns_def
        getitem_def example_column_outliers ior_cell_def astype_int_def)
  have v: "(1902.5::real) = 3805 / 2" by simp
  have "\<not> \<bar>100 - 22\<bar> > 4 * sqrt (3805 / 2)" using example_bound by simp
  with run example_mean example_std run64 show ?thesis unfolding v by simp
qed

subsection \<open>Missing-value imputer\<close>

lemma impute_mean_getitem:
  assumes "impute_mean df c = Inr df'"
  shows "\<exists>xs m. getitem df c = Inr xs \<and> mean xs = Inr m \<and>
           (\<forall>d. getitem df' d = (if d = c then Inr (fillna xs m) else getitem df d))"
  using assms by (auto simp: impute_mean_def getitem_setitem split: sum.splits)

lemma mean_notna:
  "mean xs = Inr m \<Longrightarrow> notna_values xs \<noteq> [] \<Longrightarrow>
     m = Num (sum_list (notna_values xs) / real (length (notna_values xs)))"
  by (auto simp: mean_def Let_def split: if_splits)

lemma fillna_no_missing: "Missing \<notin> set (fillna xs (Num mu))"
  by (auto simp: fillna_def)

lemma fillna_nth:
  "i < length xs \<Longrightarrow> fillna xs v ! i = (if xs ! i = Missing then v else xs ! i)"
  by (simp add: fillna_def)

text \<open>
  C4 (as amended). When the imputer returns, each of the two milestone-age columns that
  has at least one value that is not missing holds, in place of every missing entry, the
  arithmetic mean of the values that were not missing before the replacement; no entry of
  it is missing afterwards, and its other entries are unchanged. Every other column,
  \<^verbatim>\<open>closed_at\<close> among them, is left as it was.
\<close>

theorem imputer_fills_with_mean:
  assumes run: "imputer df = Inr df'"
    and c: "c = ''age_first_milestone_year'' \<or> c = ''age_last_milestone_year''"
    and xs: "getitem df c = Inr xs"
    and some: "notna_values xs \<noteq> []"
  shows "getitem df' c =
           Inr (fillna xs (Num (sum_list (notna_values xs) / real (length (notna_values xs))))) \<and>
         Missing \<notin> set (fillna xs (Num (sum_list (notna_values xs) / real (length (notna_values xs))))) \<and>
         (\<forall>i<length xs.
            fillna xs (Num (sum_list (notna_values xs) / real (length (notna_values xs)))) ! i =
              (if xs ! i = Missing
               then Num (sum_list (notna_values xs) / real (length (notna_values xs)))
               else xs ! i)) \<and>
         getitem df' ''closed_at'' = getitem df ''closed_at'' \<and>
         (\<forall>d. d \<noteq> ''age_first_milestone_year'' \<and> d \<noteq> ''age_last_milestone_year'' \<longrightarrow>
            getitem df' d = getitem df d)"
proof -
  let ?a = "''age_first_milestone_year''" and ?b = "''age_last_milestone_year''"
  let ?mu = "sum_list (notna_values xs) / real (length (notna_values xs))"
  from run obtain df1 where s1: "impute_mean df ?a = Inr df1" and s2: "impute_mean df1 ?b = Inr df'"
    by (auto simp: imputer_def split: sum.splits)
  from impute_mean_getitem[OF s1] obtain xa ma where ga: "getitem df ?a = Inr xa"
    and ma: "mean xa = Inr ma"
    and d1: "\<forall>d. getitem df1 d = (if d = ?a then Inr (fillna xa ma) else getitem df d)"
    by blast
  from impute_mean_getitem[OF s2] obtain xb mb where gb: "getitem df1 ?b = Inr xb"
    and mb: "mean xb = Inr mb"
    and d2: "\<forall>d. getitem df' d = (if d = ?b then Inr (fillna xb mb) else getitem df1 d)"
    by blast
  have other: "\<forall>d. d \<noteq> ?a \<and> d \<noteq> ?b \<longrightarrow> getitem df' d = getitem df d"
    using d1 d2 by simp
  have target: "getitem df' c = Inr (fillna xs (Num ?mu))"
  proof (cases "c = ?a")
    case True
    with xs ga have "xa = xs" by simp
    with ma some have "ma = Num ?mu" by (simp add: mean_notna)
    with True d1 d2 \<open>xa = xs\<close> show ?thesis by simp
  next
    case False
    with c have cb: "c = ?b" by simp
    with d1 gb xs have "xb = xs" by simp
    with mb some have "mb = Num ?mu" by (simp add: mean_notna)
    with cb d2 \<open>xb = xs\<close> show ?thesis by simp
  qed
  have closed: "getitem df' ''closed_at'' = getitem df ''closed_at''"
    using other by simp
  show ?thesis
    using target other closed by (simp add: fillna_no_missing fillna_nth)
qed

theorem imputer_fills_with_mean_witness:
  "imputer [(''age_first_milestone_year'', [Num 1, Missing, Num 3]),
            (''age_last_milestone_year'', [Missing, Num 4, Num 6]),
            (''closed_at'', [Missing, Str ''6/1/2012'', Missing])] =
     Inr [(''age_first_milestone_year'', [Num 1, Num 2, Num 3]),
          (''age_last_milestone_year'', [Num 5, Num 4, Num 6]),
          (''closed_at'', [Missing, Str ''6/1/2012'', Missing])] \<and>
   getitem [(''age_first_milestone_year'', [Num 1, Missing, Num 3]),
            (''age_last_milestone_year'', [Missing, Num 4, Num 6]),
            (''closed_at'', [Missing, Str ''6/1/2012'', Missing])] ''age_first_milestone_year'' =
     Inr [Num 1, Missing, Num 3] \<and>
   notna_values [Num 1, Missing, Num 3] \<noteq> [] \<and>
   getitem [(''age_first_milestone_year'', [Num 1, Num 2, Num 3]),
          (''age_last_milestone_year'', [Num 5, Num 4, Num 6]),
          (''closed_at'', [Missing, Str ''6/1/2012'', Missing])] ''age_first_milestone_year'' =
     Inr (fillna [Num 1, Missing, Num 3] (Num 2)) \<and>
   Missing \<notin> set (fillna [Num 1, Missing, Num 3] (Num 2))"
proof -
  have run: "imputer [(''age_first_milestone_year'', [Num 1, Missing, Num 3]),
            (''age_last_milestone_year'', [Missing, Num 4, Num 6]),
            (''closed_at'', [Missing, Str ''6/1/2012'', Missing])] =
     Inr [(''age_first_milestone_year'', [Num 1, Num 2, Num 3]),
          (''age_last_milestone_year'', [Num 5, Num 4, Num 6]),
          (''closed_at'', [Missing, Str ''6/1/2012'', Missing])]"
    by (simp add: imputer_def impute_mean_def getitem_def mean_def numeric_def is_numeric_def
        fillna_def Let_def)
  have c: "''age_first_milestone_year'' = ''age_first_milestone_year'' \<or>
           ''age_first_milestone_year'' = ''age_last_milestone_year''" by simp
  have g: "getitem [(''age_first_milestone_year'', [Num 1, Missing, Num 3]),
            (''age_last_milestone_year'', [Missing, Num 4, Num 6]),
            (''closed_at'', [Missing, Str ''6/1/2012'', Missing])] ''age_first_milestone_year'' =
     Inr [Num 1, Missing, Num 3]" by (simp add: getitem_def)
  have s: "notna_values [Num 1, Missing, Num 3] \<noteq> []" by simp
  from imputer_fills_with_mean[OF run c g s] run g s show ?thesis by simp
qed

text \<open>
  A column with no value at all has the mean NaN, and filling with NaN leaves every entry
  missing: the first column below is still missing throughout after the imputer.
\<close>

theorem imputer_all_missing_counterexample:
  "imputer [(''age_first_milestone_year'', [Missing, Missing]),
            (''age_last_milestone_year'', [Num 3, Missing])] =
     Inr [(''age_first_milestone_year'', [Missing, Missing]),
          (''age_last_milestone_year'', [Num 3, Num 3])]"
  by (simp add: imputer_def impute_mean_def getitem_def mean_def numeric_def is_numeric_def
      fillna_def Let_def)

subsection \<open>Categorical encoder\<close>

lemma set_scan:
  "set (fold (\<lambda>x seen. if x \<in> set seen then seen else seen @ [x]) xs acc) = set acc \<union> set xs"
  by (induction xs arbitrary: acc) auto

lemma distinct_scan:
  "distinct acc \<Longrightarrow> distinct (fold (\<lambda>x seen. if x \<in> set seen then seen else seen @ [x]) xs acc)"
  by (induction xs arbitrary: acc) auto

lemma prefix_scan:
  "\<exists>ys. fold (\<lambda>x seen. if x \<in> set seen then seen else seen @ [x]) xs acc = acc @ ys"
proof (induction xs arbitrary: acc)
  case Nil
  then show ?case by simp
next
  case (Cons x xs)
  show ?case
  proof (cases "x \<in> set acc")
    case True
    with Cons.IH[of acc] show ?thesis by simp
  next
    case False
    from Cons.IH[of "acc @ [x]"] obtain ys where
      "fold (\<lambda>x seen. if x \<in> set seen then seen else seen @ [x]) xs (acc @ [x]) = (acc @ [x]) @ ys"
      by blast
    with False show ?thesis by simp
  qed
qed

lemma nth_scan:
  "distinct acc \<Longrightarrow> v \<notin> set acc \<Longrightarrow> v \<in> set xs \<Longrightarrow>
     card (set acc \<union> set (takeWhile (\<lambda>x. x \<noteq> v) xs))
       < length (fold (\<lambda>x seen. if x \<in> set seen then seen else seen @ [x]) xs acc) \<and>
     fold (\<lambda>x seen. if x \<in> set seen then seen else seen @ [x]) xs acc
       ! card (set acc \<union> set (takeWhile (\<lambda>x. x \<noteq> v) xs)) = v"
proof (induction xs arbitrary: acc)
  case Nil
  then show ?case by simp
next
  case (Cons x xs)
  show ?case
  proof (cases "x = v")
    case True
    from prefix_scan[of xs "acc @ [v]"] obtain ys where
      ys: "fold (\<lambda>x seen. if x \<in> set seen then seen else seen @ [x]) xs (acc @ [v]) = (acc @ [v]) @ ys"
      by blast
    from Cons.prems(1) have "card (set acc) = length acc" by (rule distinct_card)
    with True Cons.prems(2) ys show ?thesis by (simp add: nth_append)
  next
    case False
    with Cons.prems(3) have v: "v \<in> set xs" by simp
    show ?thesis
    proof (cases "x \<in> set acc")
      case True
      then have "set acc \<union> set (takeWhile (\<lambda>x. x \<noteq> v) (x # xs)) =
                 set acc \<union> set (takeWhile (\<lambda>x. x \<noteq> v) xs)"
        using False by auto
      with Cons.IH[OF Cons.prems(1,2) v] True show ?thesis by simp
    next
      case notin: False
      have d: "distinct (acc @ [x])" using Cons.prems(1) notin by simp
      have nv: "v \<notin> set (acc @ [x])" using Cons.prems(2) False by simp
      have "set (acc @ [x]) \<union> set (takeWhile (\<lambda>x. x \<noteq> v) xs) =
            set acc \<union> set (takeWhile (\<lambda>x. x \<noteq> v) (x # xs))"
        using False by auto
      with Cons.IH[OF d nv v] notin show ?thesis by simp
    qed
  qed
qed

lemma set_unique: "set (unique xs) = set xs"
  by (simp add: unique_def set_scan)

lemma distinct_unique: "distinct (unique xs)"
  by (simp add: unique_def distinct_scan)

lemma length_unique: "length (unique xs) = card (set xs)"
  using distinct_card[OF distinct_unique, of xs] by (simp add: set_unique)

lemma unique_nth:
  "v \<in> set xs \<Longrightarrow>
     card (set (takeWhile (\<lambda>x. x \<noteq> v) xs)) < length (unique xs) \<and>
     unique xs ! card (set (takeWhile (\<lambda>x. x \<noteq> v) xs)) = v"
  using nth_scan[of "[]" v xs] by (simp add: unique_def)

lemma first_position_less: "v \<in> set xs \<Longrightarrow> first_position xs v < length xs"
proof -
  assume "v \<in> set xs"
  then have "takeWhile (\<lambda>x. x \<noteq> v) xs \<noteq> xs" by auto
  then have "length (takeWhile (\<lambda>x. x \<noteq> v) xs) \<noteq> length xs"
    by (metis takeWhile_eq_take take_all order_refl)
  with length_takeWhile_le[of "\<lambda>x. x \<noteq> v" xs] show ?thesis
    by (simp add: first_position_def)
qed

lemma nth_first_position: "v \<in> set xs \<Longrightarrow> xs ! first_position xs v = v"
  using nth_length_takeWhile[of "\<lambda>x. x \<noteq> v" xs] first_position_less[of v xs]
  by (simp add: first_position_def)

lemma first_position_nth:
  "distinct ys \<Longrightarrow> k < length ys \<Longrightarrow> first_position ys (ys ! k) = k"
proof -
  assume d: "distinct ys" and k: "k < length ys"
  have "takeWhile (\<lambda>x. x \<noteq> ys ! k) ys = take k ys"
  proof (rule takeWhile_eq_take_P_nth)
    fix i assume "i < k" "i < length ys"
    with d k show "ys ! i \<noteq> ys ! k" by (simp add: nth_eq_iff_index_eq)
  next
    show "\<not> ys ! k \<noteq> ys ! k" by simp
  qed
  with k show ?thesis by (simp add: first_position_def)
qed

lemma dict_of_scan:
  "distinct ys \<Longrightarrow>
     fold (\<lambda>(i, v) m. m(v \<mapsto> i)) (enumerate n ys) m0 =
       (\<lambda>v. if v \<in> set ys then Some (n + first_position ys v) else m0 v)"
proof (induction ys arbitrary: n m0)
  case Nil
  then show ?case by simp
next
  case (Cons y ys)
  then have d: "distinct ys" and y: "y \<notin> set ys" by simp_all
  have "fold (\<lambda>(i, v) m. m(v \<mapsto> i)) (enumerate n (y # ys)) m0 =
        fold (\<lambda>(i, v) m. m(v \<mapsto> i)) (enumerate (Suc n) ys) (m0(y \<mapsto> n))" by simp
  also have "\<dots> = (\<lambda>v. if v \<in> set ys then Some (Suc n + first_position ys v) else (m0(y \<mapsto> n)) v)"
    by (rule Cons.IH[OF d])
  also have "\<dots> = (\<lambda>v. if v \<in> set (y # ys) then Some (n + first_position (y # ys) v) else m0 v)"
    using y by (auto simp: first_position_def fun_eq_iff)
  finally show ?case .
qed

lemma dict_of_unique:
  "dict_of (enumerate 0 (unique xs)) v =
     (if v \<in> set xs then Some (card (set (takeWhile (\<lambda>x. x \<noteq> v) xs))) else None)"
proof (cases "v \<in> set xs")
  case True
  from unique_nth[OF True] have k: "card (set (takeWhile (\<lambda>x. x \<noteq> v) xs)) < length (unique xs)"
    and n: "unique xs ! card (set (takeWhile (\<lambda>x. x \<noteq> v) xs)) = v" by simp_all
  from first_position_nth[OF distinct_unique k] n
  have "first_position (unique xs) v = card (set (takeWhile (\<lambda>x. x \<noteq> v) xs))" by simp
  with True show ?thesis
    by (simp add: dict_of_def dict_of_scan[OF distinct_unique] set_unique)
next
  case False
  then show ?thesis
    by (simp add: dict_of_def dict_of_scan[OF distinct_unique] set_unique)
qed

lemma takeWhile_first_position:
  "takeWhile (\<lambda>x. x \<noteq> v) xs = take (first_position xs v) xs"
  unfolding first_position_def by (rule takeWhile_eq_take)

lemma code_less:
  assumes u: "u \<in> set xs" and v: "v \<in> set xs"
    and lt: "first_position xs u < first_position xs v"
  shows "card (set (takeWhile (\<lambda>x. x \<noteq> u) xs)) < card (set (takeWhile (\<lambda>x. x \<noteq> v) xs))"
proof (rule psubset_card_mono)
  show "finite (set (takeWhile (\<lambda>x. x \<noteq> v) xs))" by simp
  have sub: "set (takeWhile (\<lambda>x. x \<noteq> u) xs) \<subseteq> set (takeWhile (\<lambda>x. x \<noteq> v) xs)"
    using lt by (simp add: takeWhile_first_position set_take_subset_set_take)
  have "first_position xs v \<le> length xs" by (simp add: first_position_def length_takeWhile_le)
  with lt have "take (first_position xs v) xs ! first_position xs u = xs ! first_position xs u"
    by simp
  moreover have "first_position xs u < length (take (first_position xs v) xs)"
    using lt first_position_less[OF v] by simp
  ultimately have "xs ! first_position xs u \<in> set (take (first_position xs v) xs)"
    by (metis nth_mem)
  then have "u \<in> set (takeWhile (\<lambda>x. x \<noteq> v) xs)"
    by (simp add: nth_first_position[OF u] takeWhile_first_position)
  moreover have "u \<notin> set (takeWhile (\<lambda>x. x \<noteq> u) xs)"
    using set_takeWhileD[of u "\<lambda>x. x \<noteq> u" xs] by blast
  ultimately show "set (takeWhile (\<lambda>x. x \<noteq> u) xs) \<subset> set (takeWhile (\<lambda>x. x \<noteq> v) xs)"
    using sub by blast
qed

lemma code_order:
  assumes u: "u \<in> set xs" and v: "v \<in> set xs"
  shows "card (set (takeWhile (\<lambda>x. x \<noteq> u) xs)) < card (set (takeWhile (\<lambda>x. x \<noteq> v) xs))
         \<longleftrightarrow> first_position xs u < first_position xs v"
proof
  assume lt: "card (set (takeWhile (\<lambda>x. x \<noteq> u) xs)) < card (set (takeWhile (\<lambda>x. x \<noteq> v) xs))"
  show "first_position xs u < first_position xs v"
  proof (rule ccontr)
    assume "\<not> first_position xs u < first_position xs v"
    then consider "first_position xs v < first_position xs u"
      | "first_position xs v = first_position xs u" by linarith
    then show False
    proof cases
      case 1
      from code_less[OF v u 1] lt show False by simp
    next
      case 2
      then have "xs ! first_position xs v = xs ! first_position xs u" by simp
      then have "v = u" by (simp add: nth_first_position[OF u] nth_first_position[OF v])
      with lt show False by simp
    qed
  qed
next
  assume "first_position xs u < first_position xs v"
  with u v show "card (set (takeWhile (\<lambda>x. x \<noteq> u) xs)) < card (set (takeWhile (\<lambda>x. x \<noteq> v) xs))"
    by (rule code_less)
qed

lemma code_inj:
  fixes xs :: series
  assumes u: "u \<in> set xs" and v: "v \<in> set xs"
    and eq: "card (set (takeWhile (\<lambda>x. x \<noteq> u) xs)) = card (set (takeWhile (\<lambda>x. x \<noteq> v) xs))"
  shows "u = v"
proof -
  from unique_nth[OF u] have a: "unique xs ! card (set (takeWhile (\<lambda>x. x \<noteq> u) xs)) = u"
    by (rule conjunct2)
  from unique_nth[OF v] have b: "unique xs ! card (set (takeWhile (\<lambda>x. x \<noteq> v) xs)) = v"
    by (rule conjunct2)
  from a have "u = unique xs ! card (set (takeWhile (\<lambda>x. x \<noteq> u) xs))" by (rule sym)
  also have "\<dots> = unique xs ! card (set (takeWhile (\<lambda>x. x \<noteq> v) xs))" by (simp only: eq)
  also have "\<dots> = v" by (rule b)
  finally show ?thesis .
qed

lemma code_range:
  fixes xs :: series
  shows "k < card (set xs) \<Longrightarrow> \<exists>v\<in>set xs. card (set (takeWhile (\<lambda>x. x \<noteq> v) xs)) = k"
proof -
  assume "k < card (set xs)"
  then have k: "k < length (unique xs)" by (simp add: length_unique)
  let ?v = "unique xs ! k"
  from k have v: "?v \<in> set xs" using set_unique[of xs] nth_mem[of k "unique xs"] by blast
  from unique_nth[OF v] have k': "card (set (takeWhile (\<lambda>x. x \<noteq> ?v) xs)) < length (unique xs)"
    and n: "unique xs ! card (set (takeWhile (\<lambda>x. x \<noteq> ?v) xs)) = ?v" by simp_all
  from n k k' have "card (set (takeWhile (\<lambda>x. x \<noteq> ?v) xs)) = k"
    using distinct_unique[of xs] by (simp add: nth_eq_iff_index_eq)
  with v show ?thesis by blast
qed

lemma code_bound:
  fixes xs :: series
  shows "v \<in> set xs \<Longrightarrow> card (set (takeWhile (\<lambda>x. x \<noteq> v) xs)) < card (set xs)"
  using unique_nth[of v xs] by (simp add: length_unique)

lemma create_mapping_eq:
  "create_mapping df column = Inr mapping \<Longrightarrow> getitem df column = Inr xs \<Longrightarrow>
     mapping = dict_of (enumerate 0 (unique xs))"
  by (simp add: create_mapping_def)

text \<open>
  For a categorical column \<open>xs\<close> of the table, the mapping that the encoder builds
  gives each value of the column the number of distinct values that appear above its
  first occurrence, and gives nothing else a code. So the codes follow the order of first
  appearance, scanning from the top; two values have the same code only if they are the
  same value; the codes are exactly \<open>0, 1, \<dots>, n - 1\<close> for \<open>n\<close> distinct values, each of
  them on at least one row of the rewritten column; every cell of the column is replaced by
  its code, and the loop keeps the mapping under the column's label. The mapping is a
  function of the column's cells alone: any table with the same column gives the same one.
\<close>

lemma create_mapping_codes:
  assumes m: "create_mapping df column = Inr mapping" and xs: "getitem df column = Inr xs"
  shows "(\<forall>v. mapping v =
            (if v \<in> set xs then Some (card (set (takeWhile (\<lambda>x. x \<noteq> v) xs))) else None)) \<and>
         (\<forall>u v a b. mapping u = Some a \<and> mapping v = Some b \<longrightarrow>
            (a < b \<longleftrightarrow> first_position xs u < first_position xs v)) \<and>
         (\<forall>u v a. mapping u = Some a \<and> mapping v = Some a \<longrightarrow> u = v) \<and>
         ran mapping = {0..<card (set xs)} \<and>
         (\<forall>k<card (set xs). \<exists>i<length xs. series_map mapping xs ! i = Num (real k)) \<and>
         (\<forall>i<length xs. \<exists>k. mapping (xs ! i) = Some k \<and>
            series_map mapping xs ! i = Num (real k)) \<and>
         encode_columns (df, column_mappings) [column] =
           Inr (setitem df column (series_map mapping xs), column_mappings(column \<mapsto> mapping)) \<and>
         (\<forall>df2. getitem df2 column = Inr xs \<longrightarrow> create_mapping df2 column = Inr mapping)"
proof -
  let ?code = "\<lambda>v. card (set (takeWhile (\<lambda>x. x \<noteq> v) xs))"
  have mp: "mapping v = (if v \<in> set xs then Some (?code v) else None)" for v
    using create_mapping_eq[OF m xs] by (simp only: dict_of_unique)
  have dom: "v \<in> set xs \<and> a = ?code v" if "mapping v = Some a" for v a
    using that mp[of v] by (cases "v \<in> set xs") simp_all
  have ord: "a < b \<longleftrightarrow> first_position xs u < first_position xs v"
    if "mapping u = Some a \<and> mapping v = Some b" for u v a b
  proof -
    from that dom have u: "u \<in> set xs" and a: "a = ?code u" and v: "v \<in> set xs" and b: "b = ?code v"
      by blast+
    from code_order[OF u v] a b show ?thesis by simp
  qed
  have inj: "u = v" if "mapping u = Some a \<and> mapping v = Some a" for u v a
  proof -
    from that dom have u: "u \<in> set xs" and a: "a = ?code u" and v: "v \<in> set xs" and b: "a = ?code v"
      by blast+
    from a b have "?code u = ?code v" by simp
    with u v show ?thesis by (rule code_inj)
  qed
  have rn: "ran mapping = {0..<card (set xs)}"
  proof (intro set_eqI iffI)
    fix k assume "k \<in> ran mapping"
    then obtain v where "mapping v = Some k" by (auto simp: ran_def)
    with dom have "v \<in> set xs" and "k = ?code v" by blast+
    with code_bound[of v xs] show "k \<in> {0..<card (set xs)}" by simp
  next
    fix k assume "k \<in> {0..<card (set xs)}"
    then have "k < card (set xs)" by simp
    from code_range[OF this] obtain v where v: "v \<in> set xs" and "?code v = k" by blast
    with mp[of v] have "mapping v = Some k" by simp
    then show "k \<in> ran mapping" by (auto simp: ran_def)
  qed
  have cell: "\<exists>k. mapping (xs ! i) = Some k \<and> series_map mapping xs ! i = Num (real k)"
    if "i < length xs" for i
  proof -
    from that have "xs ! i \<in> set xs" by simp
    with mp[of "xs ! i"] have "mapping (xs ! i) = Some (?code (xs ! i))" by simp
    with that show ?thesis by (simp add: series_map_def)
  qed
  have used: "\<exists>i<length xs. series_map mapping xs ! i = Num (real k)" if "k < card (set xs)" for k
  proof -
    from code_range[OF that] obtain v where v: "v \<in> set xs" and c: "?code v = k" by blast
    from v obtain i where i: "i < length xs" and xi: "xs ! i = v" by (auto simp: in_set_conv_nth)
    from v c mp[of v] have "mapping v = Some k" by simp
    with i xi have "series_map mapping xs ! i = Num (real k)" by (simp add: series_map_def)
    with i show ?thesis by blast
  qed
  have enc: "encode_columns (df, column_mappings) [column] =
           Inr (setitem df column (series_map mapping xs), column_mappings(column \<mapsto> mapping))"
    using m xs by simp
  have det: "create_mapping df2 column = Inr mapping" if "getitem df2 column = Inr xs" for df2
    using that create_mapping_eq[OF m xs] by (simp add: create_mapping_def)
  have c1: "\<forall>v. mapping v = (if v \<in> set xs then Some (?code v) else None)"
    by (intro allI) (rule mp)
  have c2: "\<forall>u v a b. mapping u = Some a \<and> mapping v = Some b \<longrightarrow>
            (a < b \<longleftrightarrow> first_position xs u < first_position xs v)"
    by (intro allI impI) (rule ord)
  have c3: "\<forall>u v a. mapping u = Some a \<and> mapping v = Some a \<longrightarrow> u = v"
    by (intro allI impI) (rule inj)
  have c5: "\<forall>k<card (set xs). \<exists>i<length xs. series_map mapping xs ! i = Num (real k)"
    by (intro allI impI) (rule used)
  have c6: "\<forall>i<length xs. \<exists>k. mapping (xs ! i) = Some k \<and>
            series_map mapping xs ! i = Num (real k)"
    by (intro allI impI) (rule cell)
  have c8: "\<forall>df2. getitem df2 column = Inr xs \<longrightarrow> create_mapping df2 column = Inr mapping"
    by (intro allI impI) (rule det)
  show ?thesis
    by (intro conjI) (rule c1 c2 c3 rn c5 c6 enc c8)+
qed

subsection \<open>Date normalizer\<close>

lemma notna_dates_mem: "d \<in> set (notna_dates xs) \<longleftrightarrow> Date d \<in> set xs"
  by (induction xs rule: notna_dates.induct) auto

lemma date_min_Date:
  assumes "date_min xs = Date r"
  shows "Date r \<in> set xs \<and> (\<forall>d. Date d \<in> set xs \<longrightarrow> r \<le> d)"
proof -
  from assms have ne: "notna_dates xs \<noteq> []" and r: "r = min_list (notna_dates xs)"
    by (auto simp: date_min_def Let_def split: if_splits)
  from ne r have rm: "r = Min (set (notna_dates xs))" by (simp add: min_list_Min)
  with ne have "r \<in> set (notna_dates xs)" by simp
  moreover have "\<forall>d\<in>set (notna_dates xs). r \<le> d" using rm by simp
  ultimately show ?thesis by (simp add: notna_dates_mem)
qed

lemma date_min_Missing: "date_min xs = Missing \<Longrightarrow> Date d \<notin> set xs"
  by (auto simp: date_min_def Let_def notna_dates_mem[symmetric] split: if_splits)

lemma date_min_cases: "date_min xs = Missing \<or> (\<exists>r. date_min xs = Date r)"
  by (simp add: date_min_def Let_def)

lemma global_min_le:
  assumes "xs \<in> set cols" and "Date d \<in> set xs"
  shows "\<exists>r. date_min (map date_min cols) = Date r \<and> r \<le> d"
proof -
  from date_min_cases[of xs] assms(2) obtain r1 where r1: "date_min xs = Date r1"
    using date_min_Missing by blast
  from date_min_Date[OF r1] assms(2) have le1: "r1 \<le> d" by blast
  from r1 assms(1) have in1: "Date r1 \<in> set (map date_min cols)" by force
  from date_min_cases[of "map date_min cols"] in1 obtain r where
    r: "date_min (map date_min cols) = Date r" using date_min_Missing by blast
  from date_min_Date[OF r] in1 have "r \<le> r1" by blast
  with le1 r show ?thesis by auto
qed

lemma global_min_attained:
  assumes "date_min (map date_min cols) = Date r"
  shows "\<exists>xs\<in>set cols. Date r \<in> set xs"
proof -
  from date_min_Date[OF assms] have "Date r \<in> set (map date_min cols)" by blast
  then obtain xs where xs: "xs \<in> set cols" and "date_min xs = Date r" by auto
  from date_min_Date[OF this(2)] xs show ?thesis by blast
qed

lemma getitem_filter:
  "getitem (filter (\<lambda>(n, _). n \<notin> S) df) c = (if c \<in> S then Inl (KeyError [c]) else getitem df c)"
  by (induction df) (auto simp: getitem_def)

lemma columns_filter:
  "set (columns (filter (\<lambda>(n, _). n \<notin> S) df)) = set (columns df) - S"
  by (induction df) (auto simp: columns_def)

lemma drop_columns_Inr:
  "drop_columns df labels = Inr df' \<Longrightarrow> df' = filter (\<lambda>(n, _). n \<notin> set labels) df"
  by (simp add: drop_columns_def Let_def split: if_splits)

lemma days_since_Date:
  "days_since (Date r) (Date d) = Num (of_int ((d - r) div ns_per_day))"
  by (simp add: days_since_def)

lemma days_nonneg: "r \<le> d \<Longrightarrow> 0 \<le> (d - r) div ns_per_day"
  by (simp add: ns_per_day_def pos_imp_zdiv_nonneg_iff)

lemma reference_date_columns:
  assumes "reference_date_of df = Inr ref"
  shows "\<exists>xa xb xc. getitem df ''founded_at'' = Inr xa \<and>
           getitem df ''first_funding_at'' = Inr xb \<and>
           getitem df ''last_funding_at'' = Inr xc \<and>
           ref = date_min (map date_min [xa, xb, xc])"
proof -
  from assms have absent: "filter (\<lambda>l. l \<notin> set (columns df)) date_columns = []"
    by (auto simp: reference_date_of_def getitems_def Let_def split: if_splits sum.splits)
  then have "''founded_at'' \<in> set (columns df)" "''first_funding_at'' \<in> set (columns df)"
    "''last_funding_at'' \<in> set (columns df)"
    by (auto simp: date_columns_def split: if_splits)
  then obtain xa xb xc where a: "getitem df ''founded_at'' = Inr xa"
    and b: "getitem df ''first_funding_at'' = Inr xb"
    and c: "getitem df ''last_funding_at'' = Inr xc"
    by (auto simp: getitem_columns)
  from a b c have "map_of df ''founded_at'' = Some xa" "map_of df ''first_funding_at'' = Some xb"
    "map_of df ''last_funding_at'' = Some xc"
    by (auto simp: getitem_def split: option.splits)
  with assms absent have "ref = date_min (map date_min [xa, xb, xc])"
    by (simp add: reference_date_of_def getitems_def Let_def date_columns_def)
  with a b c show ?thesis by blast
qed

lemma convert_loop_date_columns:
  assumes "convert_loop df ref date_columns = Inr df1"
    and "getitem df ''founded_at'' = Inr xa"
    and "getitem df ''first_funding_at'' = Inr xb"
    and "getitem df ''last_funding_at'' = Inr xc"
  shows "df1 =
    setitem
      (setitem
        (setitem df ''founded_at_days'' (map (days_since ref) xa))
        ''first_funding_at_days'' (map (days_since ref) xb))
      ''last_funding_at_days'' (map (days_since ref) xc)"
  using assms by (simp add: date_columns_def getitem_setitem)

text \<open>
  C1. When the date normalizer returns, there is one reference date for the three date
  columns together: it is no later than any date in any of them and, when they hold a date
  at all, it is one of their dates. For each of the three columns the table gains the
  column \<^verbatim>\<open><label>_days\<close> whose cells are the whole days from the reference date to the
  cell's date (a missing date stays missing); each of these offsets is \<open>\<ge> 0\<close>, the offset
  of a cell that holds the reference date is 0, and the three date columns themselves are
  no longer in the table.
\<close>

theorem date_normalizer_offsets:
  assumes run: "date_normalizer df = Inr df'"
  shows "\<exists>ref. reference_date_of df = Inr ref \<and>
     (\<forall>c\<in>set date_columns. \<exists>xs. getitem df c = Inr xs \<and>
        getitem df' (c @ ''_days'') = Inr (map (days_since ref) xs) \<and>
        c \<notin> set (columns df') \<and>
        (\<forall>i<length xs. \<forall>d. xs ! i = Date d \<longrightarrow>
           (\<exists>r. ref = Date r \<and> r \<le> d \<and>
              map (days_since ref) xs ! i = Num (of_int ((d - r) div ns_per_day)) \<and>
              0 \<le> (d - r) div ns_per_day \<and>
              (d = r \<longrightarrow> map (days_since ref) xs ! i = Num 0)))) \<and>
     (\<forall>r. ref = Date r \<longrightarrow>
        (\<exists>c\<in>set date_columns. \<exists>xs. getitem df c = Inr xs \<and> Date r \<in> set xs))"
proof -
  from run obtain ref df1 where rd: "reference_date_of df = Inr ref"
    and cl: "convert_loop df ref date_columns = Inr df1"
    and dr: "drop_columns df1 date_columns = Inr df'"
    by (auto simp: date_normalizer_def split: sum.splits if_splits)
  from reference_date_columns[OF rd] obtain xa xb xc where
    a: "getitem df ''founded_at'' = Inr xa" and b: "getitem df ''first_funding_at'' = Inr xb"
    and c: "getitem df ''last_funding_at'' = Inr xc"
    and ref: "ref = date_min (map date_min [xa, xb, xc])"
    by (elim exE conjE) (rule that)
  note df1 = convert_loop_date_columns[OF cl a b c]
  have df': "df' = filter (\<lambda>(n, _). n \<notin> set date_columns) df1"
    using dr by (rule drop_columns_Inr)
  have gd: "getitem df' l = (if l \<in> set date_columns then Inl (KeyError [l]) else getitem df1 l)"
    for l by (simp only: df' getitem_filter)
  have ga: "getitem df' (''founded_at'' @ ''_days'') = Inr (map (days_since ref) xa)"
    by (simp add: gd date_columns_def) (simp add: df1 getitem_setitem)
  have gb: "getitem df' (''first_funding_at'' @ ''_days'') = Inr (map (days_since ref) xb)"
    by (simp add: gd date_columns_def) (simp add: df1 getitem_setitem)
  have gc: "getitem df' (''last_funding_at'' @ ''_days'') = Inr (map (days_since ref) xc)"
    by (simp add: gd date_columns_def) (simp add: df1 getitem_setitem)
  have "set (columns df') = set (columns df1) - set date_columns"
    by (simp only: df' columns_filter)
  then have gone: "l \<notin> set (columns df')" if "l \<in> set date_columns" for l
    using that by blast
  have cellfact: "\<exists>r. ref = Date r \<and> r \<le> d \<and>
              map (days_since ref) xs ! i = Num (of_int ((d - r) div ns_per_day)) \<and>
              0 \<le> (d - r) div ns_per_day \<and>
              (d = r \<longrightarrow> map (days_since ref) xs ! i = Num 0)"
    if mem: "xs \<in> set [xa, xb, xc]" and i: "i < length xs" and d: "xs ! i = Date d" for xs i d
  proof -
    from i d have "Date d \<in> set xs" by (metis nth_mem)
    from global_min_le[OF mem this] ref obtain r where r: "ref = Date r" and le: "r \<le> d"
      by auto
    from i d r have v: "map (days_since ref) xs ! i = Num (of_int ((d - r) div ns_per_day))"
      by (simp add: days_since_Date)
    from le have nn: "0 \<le> (d - r) div ns_per_day" by (rule days_nonneg)
    from v have z: "d = r \<longrightarrow> map (days_since ref) xs ! i = Num 0" by simp
    from r le v nn z show ?thesis by blast
  qed
  have col: "\<exists>xs. getitem df l = Inr xs \<and>
        getitem df' (l @ ''_days'') = Inr (map (days_since ref) xs) \<and>
        l \<notin> set (columns df') \<and>
        (\<forall>i<length xs. \<forall>d. xs ! i = Date d \<longrightarrow>
           (\<exists>r. ref = Date r \<and> r \<le> d \<and>
              map (days_since ref) xs ! i = Num (of_int ((d - r) div ns_per_day)) \<and>
              0 \<le> (d - r) div ns_per_day \<and>
              (d = r \<longrightarrow> map (days_since ref) xs ! i = Num 0)))"
    if l: "l \<in> set date_columns" for l
  proof -
    from l consider "l = ''founded_at''" | "l = ''first_funding_at''" | "l = ''last_funding_at''"
      by (auto simp: date_columns_def)
    then obtain xs where g: "getitem df l = Inr xs"
      and g': "getitem df' (l @ ''_days'') = Inr (map (days_since ref) xs)"
      and mem: "xs \<in> set [xa, xb, xc]"
    proof cases
      case 1
      with a ga that show ?thesis by simp
    next
      case 2
      with b gb that show ?thesis by simp
    next
      case 3
      with c gc that show ?thesis by simp
    qed
    have "\<forall>i<length xs. \<forall>d. xs ! i = Date d \<longrightarrow>
           (\<exists>r. ref = Date r \<and> r \<le> d \<and>
              map (days_since ref) xs ! i = Num (of_int ((d - r) div ns_per_day)) \<and>
              0 \<le> (d - r) div ns_per_day \<and>
              (d = r \<longrightarrow> map (days_since ref) xs ! i = Num 0))"
      by (intro allI impI) (rule cellfact[OF mem])
    with g g' gone[OF l] show ?thesis by (intro exI[of _ xs] conjI)
  qed
  have att: "\<exists>c\<in>set date_columns. \<exists>xs. getitem df c = Inr xs \<and> Date r \<in> set xs"
    if "ref = Date r" for r
  proof -
    from that ref have "date_min (map date_min [xa, xb, xc]) = Date r" by simp
    from global_min_attained[OF this] obtain xs where mem: "xs \<in> set [xa, xb, xc]"
      and r: "Date r \<in> set xs" by blast
    from mem consider "xs = xa" | "xs = xb" | "xs = xc" by auto
    then show ?thesis
    proof cases
      case 1
      with a r show ?thesis by (intro bexI[of _ "''founded_at''"]) (auto simp: date_columns_def)
    next
      case 2
      with b r show ?thesis by (intro bexI[of _ "''first_funding_at''"]) (auto simp: date_columns_def)
    next
      case 3
      with c r show ?thesis by (intro bexI[of _ "''last_funding_at''"]) (auto simp: date_columns_def)
    qed
  qed
  have c1: "\<forall>c\<in>set date_columns. \<exists>xs. getitem df c = Inr xs \<and>
        getitem df' (c @ ''_days'') = Inr (map (days_since ref) xs) \<and>
        c \<notin> set (columns df') \<and>
        (\<forall>i<length xs. \<forall>d. xs ! i = Date d \<longrightarrow>
           (\<exists>r. ref = Date r \<and> r \<le> d \<and>
              map (days_since ref) xs ! i = Num (of_int ((d - r) div ns_per_day)) \<and>
              0 \<le> (d - r) div ns_per_day \<and>
              (d = r \<longrightarrow> map (days_since ref) xs ! i = Num 0)))"
    by (intro ballI) (rule col)
  have c2: "\<forall>r. ref = Date r \<longrightarrow>
        (\<exists>c\<in>set date_columns. \<exists>xs. getitem df c = Inr xs \<and> Date r \<in> set xs)"
    by (intro allI impI) (rule att)
  show ?thesis by (rule exI[of _ ref]) (intro conjI rd c1 c2)
qed

lemma example_dates_run:
  "date_normalizer
     [(''founded_at'', [Date 1578614400000000000]),
      (''first_funding_at'', [Date 1577836800000000000]),
      (''last_funding_at'', [Date 1579478400000000000])] =
   Inr [(''founded_at_days'', [Num 9]), (''first_funding_at_days'', [Num 0]),
        (''last_funding_at_days'', [Num 19])]"
  by (simp add: date_normalizer_def reference_date_of_def getitems_def date_columns_def
      columns_def date_min_def Let_def getitem_def is_date_def days_since_def ns_per_day_def
      drop_columns_def)

theorem date_normalizer_offsets_witness:
  "date_normalizer
     [(''founded_at'', [Date 1578614400000000000]),
      (''first_funding_at'', [Date 1577836800000000000]),
      (''last_funding_at'', [Date 1579478400000000000])] =
   Inr [(''founded_at_days'', [Num 9]), (''first_funding_at_days'', [Num 0]),
        (''last_funding_at_days'', [Num 19])] \<and>
   (\<exists>ref. reference_date_of
     [(''founded_at'', [Date 1578614400000000000]),
      (''first_funding_at'', [Date 1577836800000000000]),
      (''last_funding_at'', [Date 1579478400000000000])] = Inr ref) \<and>
   reference_date_of
     [(''founded_at'', [Date 1578614400000000000]),
      (''first_funding_at'', [Date 1577836800000000000]),
      (''last_funding_at'', [Date 1579478400000000000])] = Inr (Date 1577836800000000000) \<and>
   ''founded_at'' \<notin> set (columns [(''founded_at_days'', [Num 9]), (''first_funding_at_days'', [Num 0]),
        (''last_funding_at_days'', [Num 19])])"
proof -
  from date_normalizer_offsets[OF example_dates_run]
  have ex: "\<exists>ref. reference_date_of
     [(''founded_at'', [Date 1578614400000000000]),
      (''first_funding_at'', [Date 1577836800000000000]),
      (''last_funding_at'', [Date 1579478400000000000])] = Inr ref"
    by (elim exE conjE) (rule exI)
  have rf: "reference_date_of
     [(''founded_at'', [Date 1578614400000000000]),
      (''first_funding_at'', [Date 1577836800000000000]),
      (''last_funding_at'', [Date 1579478400000000000])] = Inr (Date 1577836800000000000)"
    by (simp add: reference_date_of_def getitems_def date_columns_def columns_def date_min_def
        Let_def)
  have nc: "''founded_at'' \<notin> set (columns [(''founded_at_days'', [Num 9]),
        (''first_funding_at_days'', [Num 0]), (''last_funding_at_days'', [Num 19])])"
    by (simp add: columns_def)
  from example_dates_run ex rf nc show ?thesis by (intro conjI)
qed

subsection \<open>Columns that are not in the table\<close>

lemma aav_skips_absent:
  "apply_absolute_values df cols =
     apply_absolute_values df (filter (\<lambda>c. c \<in> set (columns df)) cols)"
proof (induction cols arbitrary: df)
  case Nil
  then show ?case by simp
next
  case (Cons col cols)
  show ?case
  proof (cases "col \<in> set (columns df)")
    case False
    with Cons.IH[of df] show ?thesis by simp
  next
    case True
    have "apply_absolute_values (setitem df col ys) cols =
          apply_absolute_values (setitem df col ys) (filter (\<lambda>c. c \<in> set (columns df)) cols)" for ys
      using Cons.IH[of "setitem df col ys"] True by (simp add: columns_setitem)
    with True show ?thesis by (simp split: sum.splits)
  qed
qed

lemma outlier_loop_skips_absent:
  "''is_outlier'' \<in> set (columns df) \<Longrightarrow>
     outlier_loop df cols t = outlier_loop df (filter (\<lambda>c. c \<in> set (columns df)) cols) t"
proof (induction cols arbitrary: df)
  case Nil
  then show ?case by simp
next
  case (Cons col cols)
  show ?case
  proof (cases "col \<in> set (columns df)")
    case False
    with Cons.IH[OF Cons.prems] show ?thesis by simp
  next
    case True
    have "outlier_loop (setitem df ''is_outlier'' fs) cols t =
          outlier_loop (setitem df ''is_outlier'' fs) (filter (\<lambda>c. c \<in> set (columns df)) cols) t" for fs
      using Cons.IH[of "setitem df ''is_outlier'' fs"] Cons.prems by (simp add: columns_setitem)
    with True show ?thesis by (simp split: sum.splits)
  qed
qed

lemma identify_outliers_skips_absent:
  "identify_outliers df cols t =
     identify_outliers df (filter (\<lambda>c. c \<in> set (columns df) \<or> c = ''is_outlier'') cols) t"
proof -
  let ?df0 = "setitem df ''is_outlier'' (replicate (nrows df) (Num 0))"
  have "''is_outlier'' \<in> set (columns ?df0)" by (simp add: set_columns_setitem)
  from outlier_loop_skips_absent[OF this, of cols t]
  show ?thesis by (simp add: identify_outliers_def set_columns_setitem disj_commute)
qed

lemma encode_columns_absent:
  "c \<notin> set (columns df) \<Longrightarrow> set cs1 \<subseteq> set (columns df) \<Longrightarrow>
     encode_columns (df, column_mappings) (cs1 @ c # cs2) = Inl (KeyError [c])"
proof (induction cs1 arbitrary: df column_mappings)
  case Nil
  then show ?case by (simp add: create_mapping_def getitem_absent)
next
  case (Cons a cs1)
  from Cons.prems(2) have a: "a \<in> set (columns df)" and rest: "set cs1 \<subseteq> set (columns df)"
    by simp_all
  from a obtain xs where xs: "getitem df a = Inr xs" by (auto simp: getitem_columns)
  let ?m = "dict_of (enumerate 0 (unique xs))"
  have cols: "columns (setitem df a (series_map ?m xs)) = columns df"
    using a by (rule columns_setitem)
  have "encode_columns (setitem df a (series_map ?m xs), column_mappings(a \<mapsto> ?m)) (cs1 @ c # cs2) =
        Inl (KeyError [c])"
    by (rule Cons.IH) (simp_all add: cols Cons.prems(1) rest)
  with xs show ?case by (simp add: create_mapping_def)
qed

text \<open>
  C5 (as amended). When a label \<open>c\<close> is not a column of the table: dropping a list of
  labels that holds \<open>c\<close> fails with a KeyError that names the absent labels, \<open>c\<close> among
  them; imputing \<open>c\<close>, building the mapping of \<open>c\<close> and encoding a list of columns that
  reaches \<open>c\<close> fail with a KeyError that names \<open>c\<close>; the date normalizer fails with a
  KeyError that names \<open>c\<close> when \<open>c\<close> is one of its three columns. The sign normalizer
  and the outlier flagger test for the label first: they skip every label that is not in
  the table and raise nothing for it.
\<close>

theorem absent_column_policy:
  assumes "c \<notin> set (columns df)"
  shows "drop_columns df (ls1 @ c # ls2) =
           Inl (KeyError (filter (\<lambda>l. l \<notin> set (columns df)) (ls1 @ c # ls2))) \<and>
         c \<in> set (filter (\<lambda>l. l \<notin> set (columns df)) (ls1 @ c # ls2)) \<and>
         impute_mean df c = Inl (KeyError [c]) \<and>
         create_mapping df c = Inl (KeyError [c]) \<and>
         (set cs1 \<subseteq> set (columns df) \<longrightarrow>
            encode_columns (df, column_mappings) (cs1 @ c # cs2) = Inl (KeyError [c])) \<and>
         (c \<in> set date_columns \<longrightarrow>
            date_normalizer df = Inl (KeyError (filter (\<lambda>l. l \<notin> set (columns df)) date_columns)) \<and>
            c \<in> set (filter (\<lambda>l. l \<notin> set (columns df)) date_columns)) \<and>
         apply_absolute_values df cols =
           apply_absolute_values df (filter (\<lambda>l. l \<in> set (columns df)) cols) \<and>
         apply_absolute_values df (c # cols) = apply_absolute_values df cols \<and>
         identify_outliers df cols t =
           identify_outliers df (filter (\<lambda>l. l \<in> set (columns df) \<or> l = ''is_outlier'') cols) t \<and>
         (c \<noteq> ''is_outlier'' \<longrightarrow>
            identify_outliers df (c # cols) t = identify_outliers df cols t)"
proof -
  have d1: "drop_columns df (ls1 @ c # ls2) =
           Inl (KeyError (filter (\<lambda>l. l \<notin> set (columns df)) (ls1 @ c # ls2)))"
    using assms by (simp add: drop_columns_def Let_def)
  have d2: "c \<in> set (filter (\<lambda>l. l \<notin> set (columns df)) (ls1 @ c # ls2))"
    using assms by simp
  have i: "impute_mean df c = Inl (KeyError [c])"
    using assms by (simp add: impute_mean_def getitem_absent)
  have m: "create_mapping df c = Inl (KeyError [c])"
    using assms by (simp add: create_mapping_def getitem_absent)
  have e: "set cs1 \<subseteq> set (columns df) \<longrightarrow>
            encode_columns (df, column_mappings) (cs1 @ c # cs2) = Inl (KeyError [c])"
    using assms by (intro impI) (rule encode_columns_absent)
  have n: "c \<in> set date_columns \<longrightarrow>
            date_normalizer df = Inl (KeyError (filter (\<lambda>l. l \<notin> set (columns df)) date_columns)) \<and>
            c \<in> set (filter (\<lambda>l. l \<notin> set (columns df)) date_columns)"
  proof
    assume c: "c \<in> set date_columns"
    with assms have ne: "filter (\<lambda>l. l \<notin> set (columns df)) date_columns \<noteq> []"
      by (simp add: filter_empty_conv) blast
    then have "date_normalizer df = Inl (KeyError (filter (\<lambda>l. l \<notin> set (columns df)) date_columns))"
      by (simp add: date_normalizer_def reference_date_of_def getitems_def Let_def)
    with c assms show "date_normalizer df = Inl (KeyError (filter (\<lambda>l. l \<notin> set (columns df)) date_columns)) \<and>
            c \<in> set (filter (\<lambda>l. l \<notin> set (columns df)) date_columns)" by simp
  qed
  have a1: "apply_absolute_values df cols =
           apply_absolute_values df (filter (\<lambda>l. l \<in> set (columns df)) cols)"
    by (rule aav_skips_absent)
  have a2: "apply_absolute_values df (c # cols) = apply_absolute_values df cols"
    using assms by simp
  have o1: "identify_outliers df cols t =
           identify_outliers df (filter (\<lambda>l. l \<in> set (columns df) \<or> l = ''is_outlier'') cols) t"
    by (rule identify_outliers_skips_absent)
  have o2: "c \<noteq> ''is_outlier'' \<longrightarrow>
            identify_outliers df (c # cols) t = identify_outliers df cols t"
    using assms by (simp add: identify_outliers_def set_columns_setitem)
  show ?thesis by (intro conjI) (rule d1 d2 i m e n a1 a2 o1 o2)+
qed

theorem absent_column_policy_witness:
  "''zip_code'' \<notin> set (columns [(''age_first_funding_year'', [Num (-5)])]) \<and>
   drop_columns [(''age_first_funding_year'', [Num (-5)])] [''zip_code''] =
     Inl (KeyError [''zip_code'']) \<and>
   impute_mean [(''age_first_funding_year'', [Num (-5)])] ''zip_code'' = Inl (KeyError [''zip_code'']) \<and>
   create_mapping [(''age_first_funding_year'', [Num (-5)])] ''zip_code'' = Inl (KeyError [''zip_code'']) \<and>
   apply_absolute_values [(''age_first_funding_year'', [Num (-5)])] [''zip_code''] =
     Inr [(''age_first_funding_year'', [Num (-5)])]"
proof -
  have a: "''zip_code'' \<notin> set (columns [(''age_first_funding_year'', [Num (-5)])])"
    by (simp add: columns_def)
  from absent_column_policy[OF a, where ?ls1.0 = "[]" and ?ls2.0 = "[]" and cols = "[]"] a
  show ?thesis by simp
qed

text \<open>
  The sign normalizer and the outlier flagger, asked for a label that is not in the table,
  return a table and no error.
\<close>

theorem absent_column_skipped_counterexample:
  "''no_such_column'' \<notin> set (columns [(''age_first_funding_year'', [Num (-5)])]) \<and>
   apply_absolute_values [(''age_first_funding_year'', [Num (-5)])] [''no_such_column''] =
     Inr [(''age_first_funding_year'', [Num (-5)])] \<and>
   identify_outliers [(''age_first_funding_year'', [Num (-5)])] [''no_such_column''] 4 =
     Inr [(''age_first_funding_year'', [Num (-5)]), (''is_outlier'', [Num 0])]"
  by (simp add: columns_def identify_outliers_def nrows_def)

subsection \<open>The flag condition written out\<close>

lemma notna_values_comprehension:
  "notna_values xs =
     concat (map (\<lambda>x. case x of Num w \<Rightarrow> [w] | Int64 k \<Rightarrow> [real_of_int (sint k)] | _ \<Rightarrow> []) xs)"
  by (induction xs rule: notna_values.induct) simp_all

lemma column_outliers_numeric: "column_outliers xs t = Inr bs \<Longrightarrow> numeric xs"
  by (auto simp: column_outliers_def mean_def split: sum.splits if_splits)

lemma outlier_loop_numeric:
  "outlier_loop df cols t = Inr df' \<Longrightarrow> ''is_outlier'' \<notin> set cols \<Longrightarrow>
     c \<in> set cols \<Longrightarrow> getitem df c = Inr xs \<Longrightarrow> numeric xs"
proof (induction cols arbitrary: df)
  case Nil
  then show ?case by simp
next
  case (Cons col cols)
  from Cons.prems(2) have notin: "''is_outlier'' \<notin> set cols" by simp
  show ?case
  proof (cases "col \<in> set (columns df)")
    case False
    with Cons.prems(1) have run: "outlier_loop df cols t = Inr df'" by simp
    from False Cons.prems(4) have "c \<noteq> col" by (auto simp: getitem_columns)
    with Cons.prems(3) have "c \<in> set cols" by simp
    from Cons.IH[OF run notin this Cons.prems(4)] show ?thesis .
  next
    case True
    then obtain ys where ys: "getitem df col = Inr ys" by (auto simp: getitem_columns)
    with True Cons.prems(1) obtain bs flags where bs: "column_outliers ys t = Inr bs"
      and run: "outlier_loop (setitem df ''is_outlier'' (map2 ior_cell flags (map astype_int bs))) cols t = Inr df'"
      by (auto split: sum.splits)
    show ?thesis
    proof (cases "c = col")
      case True
      with ys Cons.prems(4) have "xs = ys" by simp
      with bs show ?thesis by (simp add: column_outliers_numeric)
    next
      case False
      with Cons.prems(3) have c: "c \<in> set cols" by simp
      with notin have "c \<noteq> ''is_outlier''" by blast
      with Cons.prems(4)
      have g: "getitem (setitem df ''is_outlier'' (map2 ior_cell flags (map astype_int bs))) c = Inr xs"
        by (simp add: getitem_setitem)
      from Cons.IH[OF run notin c g] show ?thesis .
    qed
  qed
qed

lemma identify_outliers_numeric:
  assumes "identify_outliers df cols t = Inr df'" and "''is_outlier'' \<notin> set cols"
    and "c \<in> set cols" and "getitem df c = Inr xs"
  shows "numeric xs"
proof -
  let ?df0 = "setitem df ''is_outlier'' (replicate (nrows df) (Num 0))"
  from assms(1) have run: "outlier_loop ?df0 cols t = Inr df'" by (simp add: identify_outliers_def)
  from assms(2,3) have "c \<noteq> ''is_outlier''" by blast
  with assms(4) have "getitem ?df0 c = Inr xs" by (simp add: getitem_setitem)
  from outlier_loop_numeric[OF run assms(2,3) this] show ?thesis .
qed

lemma mean_std_formulas:
  "(\<exists>mu sd. mean xs = Inr (Num mu) \<and> std xs = Inr (Num sd) \<and> P mu sd) \<longleftrightarrow>
     numeric xs \<and>
     (let vs = concat (map (\<lambda>x. case x of Num w \<Rightarrow> [w] | Int64 k \<Rightarrow> [real_of_int (sint k)] | _ \<Rightarrow> []) xs);
                         n = length vs; mu = sum_list vs / real n;
          sd = sqrt (sum_list (map (\<lambda>w. (w - mu)\<^sup>2) vs) / real (n - 1))
      in 2 \<le> n \<and> P mu sd)"
  by (auto simp: mean_def std_def Let_def notna_values_comprehension[symmetric])

text \<open>
  C2. On a well-formed table, with monitored labels other than the indicator's own, the
  flagger adds one column \<^verbatim>\<open>is_outlier\<close> with an entry 0 or 1 for every row. The entry
  of row \<open>i\<close> is 1 exactly when some monitored column that is in the table holds a number
  \<open>v\<close> at row \<open>i\<close> (a float, or an int64 read as a float) with
  \<open>\<bar>v - \<mu>\<bar> > t * \<sigma>\<close>. Here, for the \<open>n\<close> numbers \<open>vs\<close> of that column, \<open>\<mu>\<close> is their sum divided by \<open>n\<close> and \<open>\<sigma>\<close> is the sample standard deviation,
  the square root of the sum of the squares \<open>(w - \<mu>)\<^sup>2\<close> divided by \<open>n - 1\<close>; a column with
  fewer than two numbers has no \<open>\<sigma>\<close> and flags nothing. The per-column flags are joined
  by or into the one indicator.
\<close>

theorem identify_outliers_flagged_rows:
  assumes "wf df" and "''is_outlier'' \<notin> set cols"
    and "identify_outliers df cols t = Inr df'"
  shows "\<exists>flags. getitem df' ''is_outlier'' = Inr flags \<and> length flags = nrows df \<and>
           (\<forall>i<nrows df.
              (flags ! i = Num 1 \<or> flags ! i = Num 0) \<and>
              (flags ! i = Num 1 \<longleftrightarrow>
                 (\<exists>c\<in>set cols. \<exists>xs v. getitem df c = Inr xs \<and>
                    (xs ! i = Num v \<or> (\<exists>k. xs ! i = Int64 k \<and> v = real_of_int (sint k))) \<and>
                    (let vs = concat (map (\<lambda>x. case x of Num w \<Rightarrow> [w] | Int64 k \<Rightarrow> [real_of_int (sint k)] | _ \<Rightarrow> []) xs);
                         n = length vs; mu = sum_list vs / real n;
                         sd = sqrt (sum_list (map (\<lambda>w. (w - mu)\<^sup>2) vs) / real (n - 1))
                     in 2 \<le> n \<and> \<bar>v - mu\<bar> > t * sd))))"
proof -
  from identify_outliers_char[OF assms]
  obtain flags where fl: "getitem df' ''is_outlier'' = Inr flags"
    and len: "length flags = nrows df" and st: "set flags \<subseteq> {Num 0, Num 1}"
    and it: "\<forall>i<nrows df. flags ! i = Num 1 \<longleftrightarrow>
              (\<exists>c\<in>set cols. \<exists>xs bs. getitem df c = Inr xs \<and> column_outliers xs t = Inr bs \<and> bs ! i)"
    by (elim exE conjE) (rule that)
  have main: "\<forall>i<nrows df.
              (flags ! i = Num 1 \<or> flags ! i = Num 0) \<and>
              (flags ! i = Num 1 \<longleftrightarrow>
                 (\<exists>c\<in>set cols. \<exists>xs v. getitem df c = Inr xs \<and>
                    (xs ! i = Num v \<or> (\<exists>k. xs ! i = Int64 k \<and> v = real_of_int (sint k))) \<and>
                    (let vs = concat (map (\<lambda>x. case x of Num w \<Rightarrow> [w] | Int64 k \<Rightarrow> [real_of_int (sint k)] | _ \<Rightarrow> []) xs);
                         n = length vs; mu = sum_list vs / real n;
                         sd = sqrt (sum_list (map (\<lambda>w. (w - mu)\<^sup>2) vs) / real (n - 1))
                     in 2 \<le> n \<and> \<bar>v - mu\<bar> > t * sd)))"
  proof (intro allI impI conjI)
    fix i assume i: "i < nrows df"
    with len have "flags ! i \<in> set flags" by simp
    with st show "flags ! i = Num 1 \<or> flags ! i = Num 0" by blast
    have step: "flags ! i = Num 1 \<longleftrightarrow>
              (\<exists>c\<in>set cols. \<exists>xs bs. getitem df c = Inr xs \<and> column_outliers xs t = Inr bs \<and> bs ! i)"
      using it i by simp
    show "flags ! i = Num 1 \<longleftrightarrow>
                 (\<exists>c\<in>set cols. \<exists>xs v. getitem df c = Inr xs \<and>
                    (xs ! i = Num v \<or> (\<exists>k. xs ! i = Int64 k \<and> v = real_of_int (sint k))) \<and>
                    (let vs = concat (map (\<lambda>x. case x of Num w \<Rightarrow> [w] | Int64 k \<Rightarrow> [real_of_int (sint k)] | _ \<Rightarrow> []) xs);
                         n = length vs; mu = sum_list vs / real n;
                         sd = sqrt (sum_list (map (\<lambda>w. (w - mu)\<^sup>2) vs) / real (n - 1))
                     in 2 \<le> n \<and> \<bar>v - mu\<bar> > t * sd))"
    proof
      assume "flags ! i = Num 1"
      with step obtain c xs bs where c: "c \<in> set cols" and xs: "getitem df c = Inr xs"
        and bs: "column_outliers xs t = Inr bs" and b: "bs ! i" by blast
      from assms(1) xs have "length xs = nrows df" by (rule wf_getitem_length)
      with i have "i < length xs" by simp
      from column_outliers_nth[OF bs this] b
      obtain v where v: "xs ! i = Num v \<or> (\<exists>k. xs ! i = Int64 k \<and> v = real_of_int (sint k))"
        and ex: "\<exists>mu sd. mean xs = Inr (Num mu) \<and> std xs = Inr (Num sd) \<and> \<bar>v - mu\<bar> > t * sd"
        by blast
      from ex have "let vs = concat (map (\<lambda>x. case x of Num w \<Rightarrow> [w] | Int64 k \<Rightarrow> [real_of_int (sint k)] | _ \<Rightarrow> []) xs);
                         n = length vs; mu = sum_list vs / real n;
                         sd = sqrt (sum_list (map (\<lambda>w. (w - mu)\<^sup>2) vs) / real (n - 1))
                     in 2 \<le> n \<and> \<bar>v - mu\<bar> > t * sd"
        by (simp only: mean_std_formulas[where P = "\<lambda>mu sd. \<bar>v - mu\<bar> > t * sd"])
      with c xs v show "\<exists>c\<in>set cols. \<exists>xs v. getitem df c = Inr xs \<and>
                    (xs ! i = Num v \<or> (\<exists>k. xs ! i = Int64 k \<and> v = real_of_int (sint k))) \<and>
                    (let vs = concat (map (\<lambda>x. case x of Num w \<Rightarrow> [w] | Int64 k \<Rightarrow> [real_of_int (sint k)] | _ \<Rightarrow> []) xs);
                         n = length vs; mu = sum_list vs / real n;
                         sd = sqrt (sum_list (map (\<lambda>w. (w - mu)\<^sup>2) vs) / real (n - 1))
                     in 2 \<le> n \<and> \<bar>v - mu\<bar> > t * sd)"
        by blast
    next
      assume "\<exists>c\<in>set cols. \<exists>xs v. getitem df c = Inr xs \<and>
                    (xs ! i = Num v \<or> (\<exists>k. xs ! i = Int64 k \<and> v = real_of_int (sint k))) \<and>
                    (let vs = concat (map (\<lambda>x. case x of Num w \<Rightarrow> [w] | Int64 k \<Rightarrow> [real_of_int (sint k)] | _ \<Rightarrow> []) xs);
                         n = length vs; mu = sum_list vs / real n;
                         sd = sqrt (sum_list (map (\<lambda>w. (w - mu)\<^sup>2) vs) / real (n - 1))
                     in 2 \<le> n \<and> \<bar>v - mu\<bar> > t * sd)"
      then obtain c xs v where c: "c \<in> set cols" and xs: "getitem df c = Inr xs"
        and v: "xs ! i = Num v \<or> (\<exists>k. xs ! i = Int64 k \<and> v = real_of_int (sint k))"
        and f: "let vs = concat (map (\<lambda>x. case x of Num w \<Rightarrow> [w] | Int64 k \<Rightarrow> [real_of_int (sint k)] | _ \<Rightarrow> []) xs);
                         n = length vs; mu = sum_list vs / real n;
                         sd = sqrt (sum_list (map (\<lambda>w. (w - mu)\<^sup>2) vs) / real (n - 1))
                     in 2 \<le> n \<and> \<bar>v - mu\<bar> > t * sd"
        by blast
      from identify_outliers_numeric[OF assms(3,2) c xs] have num: "numeric xs" .
      with f have "\<exists>mu sd. mean xs = Inr (Num mu) \<and> std xs = Inr (Num sd) \<and> \<bar>v - mu\<bar> > t * sd"
        by (simp only: mean_std_formulas[where P = "\<lambda>mu sd. \<bar>v - mu\<bar> > t * sd"] simp_thms)
      then obtain mu sd where m: "mean xs = Inr (Num mu)" and s: "std xs = Inr (Num sd)"
        and gt: "\<bar>v - mu\<bar> > t * sd" by blast
      from column_outliers_defined[OF m s] obtain bs where bs: "column_outliers xs t = Inr bs"
        by blast
      from assms(1) xs have "length xs = nrows df" by (rule wf_getitem_length)
      with i have "i < length xs" by simp
      from column_outliers_nth[OF bs this] v m s gt have "bs ! i" by blast
      with c xs bs have "\<exists>c\<in>set cols. \<exists>xs bs. getitem df c = Inr xs \<and> column_outliers xs t = Inr bs \<and> bs ! i"
        by blast
      with step show "flags ! i = Num 1" by simp
    qed
  qed
  show ?thesis by (rule exI[of _ flags]) (intro conjI fl len main)
qed

lemma run_example_outliers3:
  "identify_outliers [(''funding_rounds'', [Num 0, Num 0, Num 0, Num 4])] [''funding_rounds''] (8 / 5) =
     Inr [(''funding_rounds'', [Num 0, Num 0, Num 0, Num 4]),
          (''is_outlier'', [Num 0, Num 0, Num 0, Num 0])]"
  by (simp add: identify_outliers_def nrows_def columns_def getitem_def column_outliers_def
      mean_def std_def numeric_def is_numeric_def exceeds_def ior_cell_def astype_int_def Let_def
      power2_eq_square)

theorem identify_outliers_flagged_rows_witness:
  "wf [(''funding_rounds'', [Num 0, Num 0, Num 0, Num 4])] \<and>
   ''is_outlier'' \<notin> set [''funding_rounds''] \<and>
   identify_outliers [(''funding_rounds'', [Num 0, Num 0, Num 0, Num 4])] [''funding_rounds''] 1 =
     Inr [(''funding_rounds'', [Num 0, Num 0, Num 0, Num 4]),
          (''is_outlier'', [Num 0, Num 0, Num 0, Num 1])] \<and>
   identify_outliers [(''funding_rounds'', [Num 0, Num 0, Num 0, Num 4])] [''funding_rounds''] (8 / 5) =
     Inr [(''funding_rounds'', [Num 0, Num 0, Num 0, Num 4]),
          (''is_outlier'', [Num 0, Num 0, Num 0, Num 0])] \<and>
   (\<exists>c\<in>set [''funding_rounds'']. \<exists>xs v.
      getitem [(''funding_rounds'', [Num 0, Num 0, Num 0, Num 4])] c = Inr xs \<and>
      (xs ! 3 = Num v \<or> (\<exists>k. xs ! 3 = Int64 k \<and> v = real_of_int (sint k))) \<and>
      (let vs = concat (map (\<lambda>x. case x of Num w \<Rightarrow> [w] | Int64 k \<Rightarrow> [real_of_int (sint k)] | _ \<Rightarrow> []) xs);
                         n = length vs; mu = sum_list vs / real n;
           sd = sqrt (sum_list (map (\<lambda>w. (w - mu)\<^sup>2) vs) / real (n - 1))
       in 2 \<le> n \<and> \<bar>v - mu\<bar> > 1 * sd)) \<and>
   \<not> (\<exists>c\<in>set [''funding_rounds'']. \<exists>xs v.
      getitem [(''funding_rounds'', [Num 0, Num 0, Num 0, Num 4])] c = Inr xs \<and>
      (xs ! 3 = Num v \<or> (\<exists>k. xs ! 3 = Int64 k \<and> v = real_of_int (sint k))) \<and>
      (let vs = concat (map (\<lambda>x. case x of Num w \<Rightarrow> [w] | Int64 k \<Rightarrow> [real_of_int (sint k)] | _ \<Rightarrow> []) xs);
                         n = length vs; mu = sum_list vs / real n;
           sd = sqrt (sum_list (map (\<lambda>w. (w - mu)\<^sup>2) vs) / real (n - 1))
       in 2 \<le> n \<and> \<bar>v - mu\<bar> > 8 / 5 * sd))"
proof -
  let ?df = "[(''funding_rounds'', [Num 0, Num 0, Num 0, Num 4])]"
  have w: "wf ?df" by (simp add: wf_def columns_def nrows_def)
  have n: "''is_outlier'' \<notin> set [''funding_rounds'']" by simp
  have nr: "(3::nat) < nrows ?df" by (simp add: nrows_def)
  from identify_outliers_flagged_rows[OF w n run_example_outliers]
  obtain f1 where g1: "getitem [(''funding_rounds'', [Num 0, Num 0, Num 0, Num 4]),
          (''is_outlier'', [Num 0, Num 0, Num 0, Num 1])] ''is_outlier'' = Inr f1"
    and a1: "\<forall>i<nrows ?df.
              (f1 ! i = Num 1 \<or> f1 ! i = Num 0) \<and>
              (f1 ! i = Num 1 \<longleftrightarrow>
                 (\<exists>c\<in>set [''funding_rounds'']. \<exists>xs v. getitem ?df c = Inr xs \<and>
      (xs ! i = Num v \<or> (\<exists>k. xs ! i = Int64 k \<and> v = real_of_int (sint k))) \<and>
                    (let vs = concat (map (\<lambda>x. case x of Num w \<Rightarrow> [w] | Int64 k \<Rightarrow> [real_of_int (sint k)] | _ \<Rightarrow> []) xs);
                         n = length vs; mu = sum_list vs / real n;
                         sd = sqrt (sum_list (map (\<lambda>w. (w - mu)\<^sup>2) vs) / real (n - 1))
                     in 2 \<le> n \<and> \<bar>v - mu\<bar> > 1 * sd)))"
    by (elim exE conjE) (rule that)
  from g1 have f1: "f1 = [Num 0, Num 0, Num 0, Num 1]" by (simp add: getitem_def)
  then have "f1 ! 3 = Num 1" by simp
  with a1 nr have yes: "\<exists>c\<in>set [''funding_rounds'']. \<exists>xs v. getitem ?df c = Inr xs \<and>
      (xs ! 3 = Num v \<or> (\<exists>k. xs ! 3 = Int64 k \<and> v = real_of_int (sint k))) \<and>
                    (let vs = concat (map (\<lambda>x. case x of Num w \<Rightarrow> [w] | Int64 k \<Rightarrow> [real_of_int (sint k)] | _ \<Rightarrow> []) xs);
                         n = length vs; mu = sum_list vs / real n;
                         sd = sqrt (sum_list (map (\<lambda>w. (w - mu)\<^sup>2) vs) / real (n - 1))
                     in 2 \<le> n \<and> \<bar>v - mu\<bar> > 1 * sd)"
    by blast
  from identify_outliers_flagged_rows[OF w n run_example_outliers3]
  obtain f2 where g2: "getitem [(''funding_rounds'', [Num 0, Num 0, Num 0, Num 4]),
          (''is_outlier'', [Num 0, Num 0, Num 0, Num 0])] ''is_outlier'' = Inr f2"
    and a2: "\<forall>i<nrows ?df.
              (f2 ! i = Num 1 \<or> f2 ! i = Num 0) \<and>
              (f2 ! i = Num 1 \<longleftrightarrow>
                 (\<exists>c\<in>set [''funding_rounds'']. \<exists>xs v. getitem ?df c = Inr xs \<and>
      (xs ! i = Num v \<or> (\<exists>k. xs ! i = Int64 k \<and> v = real_of_int (sint k))) \<and>
                    (let vs = concat (map (\<lambda>x. case x of Num w \<Rightarrow> [w] | Int64 k \<Rightarrow> [real_of_int (sint k)] | _ \<Rightarrow> []) xs);
                         n = length vs; mu = sum_list vs / real n;
                         sd = sqrt (sum_list (map (\<lambda>w. (w - mu)\<^sup>2) vs) / real (n - 1))
                     in 2 \<le> n \<and> \<bar>v - mu\<bar> > 8 / 5 * sd)))"
    by (elim exE conjE) (rule that)
  from g2 have f2: "f2 = [Num 0, Num 0, Num 0, Num 0]" by (simp add: getitem_def)
  then have "f2 ! 3 \<noteq> Num 1" by simp
  with a2 nr have no: "\<not> (\<exists>c\<in>set [''funding_rounds'']. \<exists>xs v. getitem ?df c = Inr xs \<and>
      (xs ! 3 = Num v \<or> (\<exists>k. xs ! 3 = Int64 k \<and> v = real_of_int (sint k))) \<and>
                    (let vs = concat (map (\<lambda>x. case x of Num w \<Rightarrow> [w] | Int64 k \<Rightarrow> [real_of_int (sint k)] | _ \<Rightarrow> []) xs);
                         n = length vs; mu = sum_list vs / real n;
                         sd = sqrt (sum_list (map (\<lambda>w. (w - mu)\<^sup>2) vs) / real (n - 1))
                     in 2 \<le> n \<and> \<bar>v - mu\<bar> > 8 / 5 * sd))"
    by blast
  from w n run_example_outliers run_example_outliers3 yes no show ?thesis by (intro conjI)
qed

subsection \<open>The encoding loop\<close>

lemma series_map_codes:
  "series_map (dict_of (enumerate 0 (unique xs))) xs =
     map (\<lambda>v. Num (real (card (set (takeWhile (\<lambda>x. x \<noteq> v) xs))))) xs"
  by (simp add: series_map_def dict_of_unique)

lemma encode_columns_loop:
  assumes "encode_columns (df, cm) cols = Inr (df', cm')" and "distinct cols"
  shows "columns df' = columns df \<and>
         (\<forall>c. c \<notin> set cols \<longrightarrow> getitem df' c = getitem df c \<and> cm' c = cm c) \<and>
         (\<forall>c\<in>set cols. \<exists>xs. getitem df c = Inr xs \<and>
            cm' c = Some (dict_of (enumerate 0 (unique xs))) \<and>
            getitem df' c = Inr (series_map (dict_of (enumerate 0 (unique xs))) xs))"
  using assms
proof (induction cols arbitrary: df cm)
  case Nil
  then show ?case by simp
next
  case (Cons a cols)
  from Cons.prems(2) have a: "a \<notin> set cols" and d: "distinct cols" by simp_all
  from Cons.prems(1) obtain xs where xs: "getitem df a = Inr xs"
    by (cases "getitem df a") (simp_all add: create_mapping_def)
  let ?m = "dict_of (enumerate 0 (unique xs))"
  let ?df1 = "setitem df a (series_map ?m xs)"
  let ?cm1 = "cm(a \<mapsto> ?m)"
  from Cons.prems(1) xs have run: "encode_columns (?df1, ?cm1) cols = Inr (df', cm')"
    by (simp add: create_mapping_def)
  note ih = Cons.IH[OF run d]
  from ih have c1: "columns df' = columns ?df1" by (rule conjunct1)
  from ih have c2: "\<forall>c. c \<notin> set cols \<longrightarrow> getitem df' c = getitem ?df1 c \<and> cm' c = ?cm1 c"
    by (rule conjunct2[THEN conjunct1])
  from ih have c3: "\<forall>c\<in>set cols. \<exists>ys. getitem ?df1 c = Inr ys \<and>
            cm' c = Some (dict_of (enumerate 0 (unique ys))) \<and>
            getitem df' c = Inr (series_map (dict_of (enumerate 0 (unique ys))) ys)"
    by (rule conjunct2[THEN conjunct2])
  from xs have "a \<in> set (columns df)" by (auto simp: getitem_columns)
  then have k1: "columns df' = columns df" using c1 by (simp add: columns_setitem)
  have k2: "\<forall>c. c \<notin> set (a # cols) \<longrightarrow> getitem df' c = getitem df c \<and> cm' c = cm c"
    using c2 by (simp add: getitem_setitem)
  have k3: "\<forall>c\<in>set (a # cols). \<exists>ys. getitem df c = Inr ys \<and>
            cm' c = Some (dict_of (enumerate 0 (unique ys))) \<and>
            getitem df' c = Inr (series_map (dict_of (enumerate 0 (unique ys))) ys)"
  proof
    fix c assume c: "c \<in> set (a # cols)"
    show "\<exists>ys. getitem df c = Inr ys \<and>
            cm' c = Some (dict_of (enumerate 0 (unique ys))) \<and>
            getitem df' c = Inr (series_map (dict_of (enumerate 0 (unique ys))) ys)"
    proof (cases "c = a")
      case True
      with a c2 have "getitem df' c = getitem ?df1 a" and "cm' c = ?cm1 a" by simp_all
      with True xs show ?thesis by (simp add: getitem_setitem)
    next
      case False
      with c have cc: "c \<in> set cols" by simp
      with c3 obtain ys where "getitem ?df1 c = Inr ys"
        and r: "cm' c = Some (dict_of (enumerate 0 (unique ys)))"
           "getitem df' c = Inr (series_map (dict_of (enumerate 0 (unique ys))) ys)"
        by blast
      with False have "getitem df c = Inr ys" by (simp add: getitem_setitem)
      with r show ?thesis by blast
    qed
  qed
  from k1 k2 k3 show ?case by (intro conjI)
qed

text \<open>
  C3. When the encoding loop returns for a list of distinct labels, the returned table has
  the labels of the given one and, for each listed column with cells \<open>xs\<close>: the mapping
  kept under the column's label gives each value of \<open>xs\<close> the number of distinct values
  that appear above its first occurrence, and gives nothing else a code; the column of
  the returned table holds, row by row, the code of the cell that was there. So a value
  gets a smaller code than another exactly when it first appears above it, two values
  with one code are the same value, the codes are exactly \<open>0, 1, \<dots>, n - 1\<close> for \<open>n\<close>
  distinct values, and each of them stands on some row of the returned column. Columns
  that are not listed, and their entries in the store of mappings, are unchanged. All of
  it is a function of the cells alone, so a second run on the same table gives the same
  mappings.
\<close>

theorem encode_columns_first_appearance:
  assumes run: "encode_columns (df, cm) cols = Inr (df', cm')" and dist: "distinct cols"
  shows "columns df' = columns df \<and>
         (\<forall>c. c \<notin> set cols \<longrightarrow> getitem df' c = getitem df c \<and> cm' c = cm c) \<and>
         (\<forall>c\<in>set cols. \<exists>xs mapping ys.
            getitem df c = Inr xs \<and> cm' c = Some mapping \<and> getitem df' c = Inr ys \<and>
            (let code = (\<lambda>v. card (set (takeWhile (\<lambda>x. x \<noteq> v) xs))) in
               (\<forall>v. mapping v = (if v \<in> set xs then Some (code v) else None)) \<and>
               ys = map (\<lambda>v. Num (real (code v))) xs \<and>
               (\<forall>u\<in>set xs. \<forall>v\<in>set xs.
                  (code u < code v \<longleftrightarrow> first_position xs u < first_position xs v) \<and>
                  (code u = code v \<longrightarrow> u = v)) \<and>
               ran mapping = {0..<card (set xs)} \<and>
               (\<forall>k<card (set xs). \<exists>i<length xs. ys ! i = Num (real k))))"
proof -
  note loop = encode_columns_loop[OF run dist]
  have k1: "columns df' = columns df" using loop by (rule conjunct1)
  have k2: "\<forall>c. c \<notin> set cols \<longrightarrow> getitem df' c = getitem df c \<and> cm' c = cm c"
    using loop by (rule conjunct2[THEN conjunct1])
  have k3: "\<forall>c\<in>set cols. \<exists>xs. getitem df c = Inr xs \<and>
            cm' c = Some (dict_of (enumerate 0 (unique xs))) \<and>
            getitem df' c = Inr (series_map (dict_of (enumerate 0 (unique xs))) xs)"
    using loop by (rule conjunct2[THEN conjunct2])
  have main: "\<forall>c\<in>set cols. \<exists>xs mapping ys.
            getitem df c = Inr xs \<and> cm' c = Some mapping \<and> getitem df' c = Inr ys \<and>
            (let code = (\<lambda>v. card (set (takeWhile (\<lambda>x. x \<noteq> v) xs))) in
               (\<forall>v. mapping v = (if v \<in> set xs then Some (code v) else None)) \<and>
               ys = map (\<lambda>v. Num (real (code v))) xs \<and>
               (\<forall>u\<in>set xs. \<forall>v\<in>set xs.
                  (code u < code v \<longleftrightarrow> first_position xs u < first_position xs v) \<and>
                  (code u = code v \<longrightarrow> u = v)) \<and>
               ran mapping = {0..<card (set xs)} \<and>
               (\<forall>k<card (set xs). \<exists>i<length xs. ys ! i = Num (real k)))"
  proof
    fix c assume "c \<in> set cols"
    with k3 obtain xs where xs: "getitem df c = Inr xs"
      and m: "cm' c = Some (dict_of (enumerate 0 (unique xs)))"
      and g: "getitem df' c = Inr (series_map (dict_of (enumerate 0 (unique xs))) xs)"
      by blast
    let ?m = "dict_of (enumerate 0 (unique xs))"
    let ?code = "\<lambda>v. card (set (takeWhile (\<lambda>x. x \<noteq> v) xs))"
    let ?ys = "map (\<lambda>v. Num (real (?code v))) xs"
    have cr: "create_mapping df c = Inr ?m" using xs by (simp add: create_mapping_def)
    note facts = create_mapping_codes[OF cr xs, where column_mappings = cm]
    have p1: "\<forall>v. ?m v = (if v \<in> set xs then Some (?code v) else None)"
      by (intro allI) (rule dict_of_unique)
    have p2: "series_map ?m xs = ?ys" by (rule series_map_codes)
    have p3: "\<forall>u\<in>set xs. \<forall>v\<in>set xs.
                  (?code u < ?code v \<longleftrightarrow> first_position xs u < first_position xs v) \<and>
                  (?code u = ?code v \<longrightarrow> u = v)"
    proof (intro ballI conjI impI)
      fix u v assume u: "u \<in> set xs" and v: "v \<in> set xs"
      show "?code u < ?code v \<longleftrightarrow> first_position xs u < first_position xs v"
        using u v by (rule code_order)
      assume "?code u = ?code v"
      with u v show "u = v" by (rule code_inj)
    qed
    have p4: "ran ?m = {0..<card (set xs)}"
      by (rule facts[THEN conjunct2, THEN conjunct2, THEN conjunct2, THEN conjunct1])
    have p5: "\<forall>k<card (set xs). \<exists>i<length xs. ?ys ! i = Num (real k)"
    proof (intro allI impI)
      fix k assume "k < card (set xs)"
      from code_range[OF this] obtain v where v: "v \<in> set xs" and cv: "?code v = k" by blast
      from v obtain i where i: "i < length xs" and xi: "xs ! i = v" by (auto simp: in_set_conv_nth)
      from i xi cv have "?ys ! i = Num (real k)" by simp
      with i show "\<exists>i<length xs. ?ys ! i = Num (real k)" by blast
    qed
    have body: "let code = (\<lambda>v. card (set (takeWhile (\<lambda>x. x \<noteq> v) xs))) in
               (\<forall>v. ?m v = (if v \<in> set xs then Some (code v) else None)) \<and>
               ?ys = map (\<lambda>v. Num (real (code v))) xs \<and>
               (\<forall>u\<in>set xs. \<forall>v\<in>set xs.
                  (code u < code v \<longleftrightarrow> first_position xs u < first_position xs v) \<and>
                  (code u = code v \<longrightarrow> u = v)) \<and>
               ran ?m = {0..<card (set xs)} \<and>
               (\<forall>k<card (set xs). \<exists>i<length xs. ?ys ! i = Num (real k))"
      unfolding Let_def using p1 p3 p4 p5 by (intro conjI refl)
    from g p2 have g': "getitem df' c = Inr ?ys" by simp
    show "\<exists>xs mapping ys.
            getitem df c = Inr xs \<and> cm' c = Some mapping \<and> getitem df' c = Inr ys \<and>
            (let code = (\<lambda>v. card (set (takeWhile (\<lambda>x. x \<noteq> v) xs))) in
               (\<forall>v. mapping v = (if v \<in> set xs then Some (code v) else None)) \<and>
               ys = map (\<lambda>v. Num (real (code v))) xs \<and>
               (\<forall>u\<in>set xs. \<forall>v\<in>set xs.
                  (code u < code v \<longleftrightarrow> first_position xs u < first_position xs v) \<and>
                  (code u = code v \<longrightarrow> u = v)) \<and>
               ran mapping = {0..<card (set xs)} \<and>
               (\<forall>k<card (set xs). \<exists>i<length xs. ys ! i = Num (real k)))"
      by (rule exI[of _ xs], rule exI[of _ ?m], rule exI[of _ ?ys]) (intro conjI xs m g' body)
  qed
  show ?thesis by (intro conjI k1 k2 main)
qed

lemma example_encode_run:
  "\<exists>cm'. encode_columns
      ([(''state_code'', [Str ''CA'', Str ''NY'', Str ''CA'']),
        (''status'', [Str ''closed'', Str ''acquired'', Str ''acquired''])], Map.empty)
      [''state_code'', ''status''] =
    Inr ([(''state_code'', [Num 0, Num 1, Num 0]), (''status'', [Num 0, Num 1, Num 1])], cm')"
  by (simp add: create_mapping_def getitem_def series_map_def dict_of_def unique_def)

theorem encode_columns_first_appearance_witness:
  "distinct [''state_code'', ''status''] \<and>
   (\<exists>cm'. encode_columns
      ([(''state_code'', [Str ''CA'', Str ''NY'', Str ''CA'']),
        (''status'', [Str ''closed'', Str ''acquired'', Str ''acquired''])], Map.empty)
      [''state_code'', ''status''] =
    Inr ([(''state_code'', [Num 0, Num 1, Num 0]), (''status'', [Num 0, Num 1, Num 1])], cm') \<and>
    (\<exists>mapping. cm' ''status'' = Some mapping \<and> mapping (Str ''closed'') = Some 0 \<and>
       mapping (Str ''acquired'') = Some 1 \<and> mapping (Str ''operating'') = None \<and>
       ran mapping = {0..<2})) \<and>
   getitem [(''state_code'', [Num 0, Num 1, Num 0]), (''status'', [Num 0, Num 1, Num 1])] ''status'' =
     Inr [Num 0, Num 1, Num 1]"
proof -
  let ?df = "[(''state_code'', [Str ''CA'', Str ''NY'', Str ''CA'']),
        (''status'', [Str ''closed'', Str ''acquired'', Str ''acquired''])]"
  let ?res = "[(''state_code'', [Num 0, Num 1, Num 0]), (''status'', [Num 0, Num 1, Num 1])]"
  let ?xs = "[Str ''closed'', Str ''acquired'', Str ''acquired'']"
  have d: "distinct [''state_code'', ''status'']" by simp
  from example_encode_run obtain cm' where
    run: "encode_columns (?df, Map.empty) [''state_code'', ''status''] = Inr (?res, cm')" by blast
  note t = encode_columns_first_appearance[OF run d, THEN conjunct2, THEN conjunct2]
  have "''status'' \<in> set [''state_code'', ''status'']" by simp
  with t obtain xs mapping ys where xs: "getitem ?df ''status'' = Inr xs"
    and m: "cm' ''status'' = Some mapping" and ys: "getitem ?res ''status'' = Inr ys"
    and mp: "\<forall>v. mapping v = (if v \<in> set xs then Some (card (set (takeWhile (\<lambda>x. x \<noteq> v) xs))) else None)"
    and rn: "ran mapping = {0..<card (set xs)}"
    unfolding Let_def by blast
  from xs have x: "xs = ?xs" by (simp add: getitem_def)
  have m0: "mapping (Str ''closed'') = Some 0" using mp x by simp
  have m1: "mapping (Str ''acquired'') = Some 1" using mp x by simp
  have m2: "mapping (Str ''operating'') = None" using mp x by simp
  have "card (set ?xs) = 2" by (simp add: card_insert_if)
  with rn x have r2: "ran mapping = {0..<2}" by (simp only:)
  have g: "getitem ?res ''status'' = Inr [Num 0, Num 1, Num 1]" by (simp add: getitem_def)
  from m m0 m1 m2 r2 have "\<exists>mapping. cm' ''status'' = Some mapping \<and> mapping (Str ''closed'') = Some 0 \<and>
       mapping (Str ''acquired'') = Some 1 \<and> mapping (Str ''operating'') = None \<and>
       ran mapping = {0..<2}" by blast
  with run have "\<exists>cm'. encode_columns (?df, Map.empty) [''state_code'', ''status''] = Inr (?res, cm') \<and>
    (\<exists>mapping. cm' ''status'' = Some mapping \<and> mapping (Str ''closed'') = Some 0 \<and>
       mapping (Str ''acquired'') = Some 1 \<and> mapping (Str ''operating'') = None \<and>
       ran mapping = {0..<2})" by blast
  with d g show ?thesis by (intro conjI)
qed

subsection \<open>Histograms of the log-transformed columns\<close>







end
